theory Spec2Isabelle
  imports Main "HOL-Library.Word"
begin

section \<open>JavaScript strings\<close>

text \<open>
  A JavaScript string is a sequence of UTF-16 code units. String equality (\<open>===\<close>) is
  equality of the sequences, and a string is falsy exactly when it is empty.
\<close>

type_synonym jsstring = "16 word list"

definition js :: "string \<Rightarrow> jsstring" where
  \<comment> \<open>an ASCII literal of the source, as code units\<close>
  "js s = map (\<lambda>c. of_nat (of_char c)) s"

definition isWhiteSpace :: "16 word \<Rightarrow> bool" where
  \<comment> \<open>the code units \<open>String.prototype.trim\<close> strips: ECMAScript WhiteSpace (TAB, VT, FF,
      SP, NBSP, ZWNBSP and the Unicode space separators) and LineTerminator (LF, CR, LS, PS)\<close>
  "isWhiteSpace c =
     (c \<in> {0x9, 0xA, 0xB, 0xC, 0xD, 0x20, 0xA0, 0x1680, 0x2028, 0x2029, 0x202F, 0x205F,
            0x3000, 0xFEFF}
      \<or> (0x2000 \<le> c \<and> c \<le> 0x200A))"

definition trim :: "jsstring \<Rightarrow> jsstring" where
  "trim s = rev (dropWhile isWhiteSpace (rev (dropWhile isWhiteSpace s)))"

definition truthy :: "jsstring option \<Rightarrow> bool" where
  \<comment> \<open>\<open>Boolean(x)\<close> for \<open>x : string | undefined | null\<close>\<close>
  "truthy x = (case x of None \<Rightarrow> False | Some s \<Rightarrow> s \<noteq> [])"

fun filterBoolean :: "jsstring option list \<Rightarrow> jsstring list" where
  \<comment> \<open>\<open>xs.filter(Boolean)\<close> on an array of \<open>string | undefined\<close>\<close>
  "filterBoolean [] = []"
| "filterBoolean (x # xs) =
     (case x of
        None \<Rightarrow> filterBoolean xs
      | Some s \<Rightarrow> if s \<noteq> [] then s # filterBoolean xs else filterBoolean xs)"

fun toString :: "nat \<Rightarrow> jsstring" where
  \<comment> \<open>a non-negative integer inside a template string: its decimal digits\<close>
  "toString n =
     (if n < 10 then [of_nat (48 + n)] else toString (n div 10) @ [of_nat (48 + n mod 10)])"

section \<open>Settings.tsx: the admin phone numbers\<close>

subsection \<open>Data\<close>

record PhoneNumber =
  id' :: jsstring
  number :: jsstring
  isActive :: bool

record DeleteDialog =
  isOpen :: bool
  phoneId :: "jsstring option"
  phoneNumber :: jsstring

text \<open>
  The document store is an external collaborator (firebase/firestore). A request to it is
  one of the three calls the component makes on the collection \<open>adminPhoneGio\<close>; whether
  the backend accepts a request (network, security rules) is not decided by the component,
  so every handler takes the backend's verdict \<open>acc\<close> as a parameter.
\<close>

datatype request =
    Create jsstring bool   \<comment> \<open>\<open>addDoc(collection, {number, isActive})\<close>\<close>
  | Update jsstring bool   \<comment> \<open>\<open>updateDoc(doc(collection, id), {isActive})\<close>\<close>
  | Delete jsstring        \<comment> \<open>\<open>deleteDoc(doc(collection, id))\<close>\<close>

datatype FirestoreError = NotFound | Rejected

text \<open>
  The component's React state (\<open>phoneNumbers\<close>, \<open>newPhoneNumber\<close>, \<open>deleteDialog\<close>)
  together with what it acts on: the documents of the collection, the requests issued so
  far, and the calls of \<open>console.error\<close>.
\<close>

record Settings =
  phoneNumbers :: "PhoneNumber list"
  newPhoneNumber :: jsstring
  deleteDialog :: DeleteDialog
  adminPhoneGio :: "PhoneNumber list"
  issued :: "request list"
  console :: "(jsstring \<times> FirestoreError) list"

subsection \<open>The document store\<close>

definition addDoc ::
  "(request \<Rightarrow> bool) \<Rightarrow> jsstring \<Rightarrow> PhoneNumber list \<Rightarrow> jsstring \<Rightarrow> bool
    \<Rightarrow> FirestoreError + PhoneNumber list" where
  \<comment> \<open>\<open>newId\<close> is the identifier the store generates for the new document\<close>
  "addDoc acc newId docs n a =
     (if acc (Create n a)
      then Inr (docs @ [\<lparr>id' = newId, number = n, isActive = a\<rparr>])
      else Inl Rejected)"

definition setActive :: "jsstring \<Rightarrow> bool \<Rightarrow> PhoneNumber \<Rightarrow> PhoneNumber" where
  "setActive i b d = (if id' d = i then d\<lparr>isActive := b\<rparr> else d)"

definition updateDoc ::
  "(request \<Rightarrow> bool) \<Rightarrow> PhoneNumber list \<Rightarrow> jsstring \<Rightarrow> bool
    \<Rightarrow> FirestoreError + PhoneNumber list" where
  \<comment> \<open>an update of a document that does not exist fails\<close>
  "updateDoc acc docs i b =
     (if \<not> acc (Update i b) then Inl Rejected
      else if i \<notin> id' ` set docs then Inl NotFound
      else Inr (map (setActive i b) docs))"

definition deleteDoc ::
  "(request \<Rightarrow> bool) \<Rightarrow> PhoneNumber list \<Rightarrow> jsstring \<Rightarrow> FirestoreError + PhoneNumber list" where
  \<comment> \<open>deleting a document that does not exist succeeds\<close>
  "deleteDoc acc docs i =
     (if acc (Delete i) then Inr (filter (\<lambda>d. id' d \<noteq> i) docs) else Inl Rejected)"

definition onSnapshot :: "Settings \<Rightarrow> Settings" where
  \<comment> \<open>the listener of the \<open>useEffect\<close>: the state becomes the full snapshot\<close>
  "onSnapshot w = w\<lparr>phoneNumbers := adminPhoneGio w\<rparr>"

subsection \<open>The handlers\<close>

definition handleAddPhoneNumber :: "(request \<Rightarrow> bool) \<Rightarrow> jsstring \<Rightarrow> Settings \<Rightarrow> Settings" where
  "handleAddPhoneNumber acc newId w =
     (if trim (newPhoneNumber w) = [] then w
      else
        (case addDoc acc newId (adminPhoneGio w) (trim (newPhoneNumber w)) False of
           Inr docs \<Rightarrow>
             w\<lparr>adminPhoneGio := docs,
               issued := issued w @ [Create (trim (newPhoneNumber w)) False],
               newPhoneNumber := []\<rparr>
         | Inl e \<Rightarrow>
             w\<lparr>issued := issued w @ [Create (trim (newPhoneNumber w)) False],
               console := console w @ [(js ''Error adding phone number:'', e)]\<rparr>))"

fun batchUpdates :: "PhoneNumber list \<Rightarrow> jsstring \<Rightarrow> (jsstring \<times> bool) list" where
  \<comment> \<open>the writes the callbacks of \<open>phoneNumbers.map\<close> issue, in the order of the array\<close>
  "batchUpdates [] target = []"
| "batchUpdates (phone # rest) target =
     (if id' phone = target then (id' phone, True) # batchUpdates rest target
      else if isActive phone then (id' phone, False) # batchUpdates rest target
      else batchUpdates rest target)"

fun awaitAll ::
  "(request \<Rightarrow> bool) \<Rightarrow> (jsstring \<times> bool) list \<Rightarrow> PhoneNumber list
    \<Rightarrow> PhoneNumber list \<times> FirestoreError list" where
  \<comment> \<open>every issued write runs to its end, whatever happens to the others: the documents
      after all of them, and the errors of those that failed\<close>
  "awaitAll acc [] docs = (docs, [])"
| "awaitAll acc ((i, b) # ws) docs =
     (case updateDoc acc docs i b of
        Inr docs' \<Rightarrow> awaitAll acc ws docs'
      | Inl e \<Rightarrow> (case awaitAll acc ws docs of (docs', es) \<Rightarrow> (docs', e # es)))"

definition handleToggleActive :: "(request \<Rightarrow> bool) \<Rightarrow> jsstring \<Rightarrow> Settings \<Rightarrow> Settings" where
  \<comment> \<open>\<open>Promise.all\<close> rejects as soon as one write fails, and the \<open>catch\<close> logs one error.
      When several writes fail, the runtime logs the rejection that arrives first; the
      model takes the first one in the order of the array.\<close>
  "handleToggleActive acc target w =
     (let ws = batchUpdates (phoneNumbers w) target;
          w' = w\<lparr>issued := issued w @ map (\<lambda>(i, b). Update i b) ws\<rparr>
      in case awaitAll acc ws (adminPhoneGio w) of
           (docs, []) \<Rightarrow> w'\<lparr>adminPhoneGio := docs\<rparr>
         | (docs, e # es) \<Rightarrow>
             w'\<lparr>adminPhoneGio := docs,
                console := console w @ [(js ''Error updating phone number status:'', e)]\<rparr>)"

definition handleOpenDeleteDialog :: "jsstring \<Rightarrow> jsstring \<Rightarrow> Settings \<Rightarrow> Settings" where
  "handleOpenDeleteDialog i n w =
     w\<lparr>deleteDialog := \<lparr>isOpen = True, phoneId = Some i, phoneNumber = n\<rparr>\<rparr>"

definition handleCloseDeleteDialog :: "Settings \<Rightarrow> Settings" where
  "handleCloseDeleteDialog w =
     w\<lparr>deleteDialog := \<lparr>isOpen = False, phoneId = None, phoneNumber = []\<rparr>\<rparr>"

definition handleDeletePhoneNumber :: "(request \<Rightarrow> bool) \<Rightarrow> Settings \<Rightarrow> Settings" where
  "handleDeletePhoneNumber acc w =
     (if \<not> truthy (phoneId (deleteDialog w)) then w
      else
        (let i = the (phoneId (deleteDialog w)) in
         case deleteDoc acc (adminPhoneGio w) i of
           Inr docs \<Rightarrow>
             handleCloseDeleteDialog (w\<lparr>adminPhoneGio := docs, issued := issued w @ [Delete i]\<rparr>)
         | Inl e \<Rightarrow>
             w\<lparr>issued := issued w @ [Delete i],
               console := console w @ [(js ''Error deleting phone number:'', e)]\<rparr>))"

subsection \<open>Notions of the specification\<close>

definition activeCount :: "PhoneNumber list \<Rightarrow> nat" where
  "activeCount docs = length (filter isActive docs)"

definition acceptAll :: "request \<Rightarrow> bool" where
  "acceptAll r = True"

definition rejectActivation :: "request \<Rightarrow> bool" where
  \<comment> \<open>a backend that rejects the writes setting a flag to true, and accepts the others\<close>
  "rejectActivation r = (case r of Update i b \<Rightarrow> \<not> b | _ \<Rightarrow> True)"

definition initial :: "PhoneNumber list \<Rightarrow> Settings" where
  \<comment> \<open>the component after the first snapshot of a collection\<close>
  "initial docs =
     \<lparr>phoneNumbers = docs, newPhoneNumber = [],
      deleteDialog = \<lparr>isOpen = False, phoneId = None, phoneNumber = []\<rparr>,
      adminPhoneGio = docs, issued = [], console = []\<rparr>"

definition phoneA :: PhoneNumber where
  "phoneA = \<lparr>id' = js ''1'', number = js ''0788000001'', isActive = True\<rparr>"

definition phoneB :: PhoneNumber where
  "phoneB = \<lparr>id' = js ''2'', number = js ''0788000002'', isActive = False\<rparr>"

definition twoPhones :: Settings where
  "twoPhones = initial [phoneA, phoneB]"

definition stalePhones :: Settings where
  \<comment> \<open>the second document has been deleted and the snapshot has not arrived yet\<close>
  "stalePhones = twoPhones\<lparr>adminPhoneGio := [phoneA]\<rparr>"

definition emptiedPhones :: Settings where
  \<comment> \<open>every document has been deleted and the snapshot has not arrived yet\<close>
  "emptiedPhones = twoPhones\<lparr>adminPhoneGio := []\<rparr>"

definition phoneC :: PhoneNumber where
  "phoneC = \<lparr>id' = js ''3'', number = js ''0788000003'', isActive = False\<rparr>"

definition threePhones :: Settings where
  "threePhones = initial [phoneA, phoneB, phoneC]"

definition typedPhones :: Settings where
  \<comment> \<open>a number that is already stored, typed with spaces around it\<close>
  "typedPhones = twoPhones\<lparr>newPhoneNumber := js '' 0788000001  ''\<rparr>"

definition blankPhones :: Settings where
  "blankPhones = twoPhones\<lparr>newPhoneNumber := js ''   ''\<rparr>"

subsection \<open>Auxiliary notions for the proofs\<close>

definition accepted ::
  "(request \<Rightarrow> bool) \<Rightarrow> (jsstring \<times> bool) list \<Rightarrow> (jsstring \<times> bool) list" where
  "accepted acc ws = filter (\<lambda>(i, b). acc (Update i b)) ws"

definition applyAll :: "(jsstring \<times> bool) list \<Rightarrow> PhoneNumber \<Rightarrow> PhoneNumber" where
  "applyAll ws d = fold (\<lambda>(i, b). setActive i b) ws d"

definition toggled ::
  "(request \<Rightarrow> bool) \<Rightarrow> PhoneNumber list \<Rightarrow> jsstring \<Rightarrow> PhoneNumber \<Rightarrow> PhoneNumber" where
  \<comment> \<open>what a run of \<open>handleToggleActive\<close> on the array \<open>view\<close> does to the document \<open>d\<close>\<close>
  "toggled acc view target d =
     (if id' d = target
      then (if target \<in> id' ` set view \<and> acc (Update target True) then d\<lparr>isActive := True\<rparr>
            else d)
      else if (\<exists>p \<in> set view. id' p = id' d \<and> isActive p) \<and> acc (Update (id' d) False)
           then d\<lparr>isActive := False\<rparr>
           else d)"

section \<open>The beat library: creating a catalog entry\<close>

subsection \<open>Data\<close>

text \<open>
  Numbers are kept abstract (\<open>'n\<close>, with a zero) and so are files (\<open>'f\<close>): the handler
  copies them and never computes with them. The form state is a \<open>Partial<Beat>\<close>, so
  every field may be absent.
\<close>

record 'n LicenseType =
  type' :: jsstring
  price' :: 'n
  rights :: "jsstring list"

datatype FieldValue = ServerTimestamp

record 'n Beat =
  title :: "jsstring option"
  producerId :: "jsstring option"
  producerName :: "jsstring option"
  audioUrl :: "jsstring option"
  previewUrl :: "jsstring option"
  duration :: "'n option"
  genre :: "jsstring option"
  tags :: "jsstring list option"
  bpm :: "'n option"
  price :: "'n option"
  licenseTypes :: "(jsstring \<times> 'n LicenseType) list option"
  plays :: "'n option"
  purchases :: "'n option"
  likes :: "'n option"
  createdAt :: "FieldValue option"
  updatedAt :: "FieldValue option"
  imageUrl :: "jsstring option"
  isActive' :: "bool option"
  isFeatured :: "bool option"
  searchKeywords :: "jsstring list option"

record 'n BeatDoc =
  docId :: jsstring                 \<comment> \<open>the identifier of the document\<close>
  docData :: "'n Beat"              \<comment> \<open>the fields written by \<open>addDoc\<close>\<close>
  docIdField :: "jsstring option"   \<comment> \<open>the field \<open>id\<close>, written by the later \<open>updateDoc\<close>\<close>

datatype 'n call =
    UploadBytes jsstring
  | GetDownloadURL jsstring
  | AddBeat "'n Beat"
  | SetId jsstring

datatype failure = UploadFailed | UrlFailed | CreateFailed | UpdateFailed

text \<open>
  The collaborators of the handler: the authentication service (the \<open>uid\<close> of the
  current user, if there is one), the clock, blob storage and the document store.
\<close>

record Services =
  currentUser :: "jsstring option"
  dateNow :: "nat \<Rightarrow> nat"                          \<comment> \<open>\<open>Date.now()\<close> at its k-th call\<close>
  uploadBytes :: "jsstring \<Rightarrow> bool"                 \<comment> \<open>are bytes accepted at this path\<close>
  getDownloadURL :: "jsstring \<Rightarrow> jsstring option"
  addDocOk :: bool
  docRefId :: jsstring                             \<comment> \<open>the identifier generated for the entry\<close>
  updateDocOk :: bool

record ('n, 'f) Library =
  newBeat :: "'n Beat"
  audioFile :: "'f option"
  previewFile :: "'f option"
  imageFile :: "'f option"
  loading :: bool
  beatsDocs :: "'n BeatDoc list"          \<comment> \<open>the collection \<open>beats\<close>\<close>
  files :: "(jsstring \<times> 'f) list"         \<comment> \<open>blob storage: path and content\<close>
  calls :: "'n call list"                 \<comment> \<open>the requests issued to storage and store\<close>
  alerts :: "jsstring list"
  logged :: "(jsstring \<times> failure) list"    \<comment> \<open>the calls of \<open>console.error\<close>\<close>

subsection \<open>The handler\<close>

definition emptyBeat :: "('n::zero) Beat" where
  \<comment> \<open>the initial value of the form, also set by the reset\<close>
  "emptyBeat =
     \<lparr>title = Some [], producerId = None, producerName = Some [], audioUrl = None,
      previewUrl = None, duration = None, genre = Some [], tags = Some [], bpm = Some 0,
      price = Some 0,
      licenseTypes = Some [(js ''basic'', \<lparr>type' = js ''Basic'', price' = 0, rights = []\<rparr>)],
      plays = None, purchases = None, likes = None, createdAt = None, updatedAt = None,
      imageUrl = None, isActive' = Some True, isFeatured = Some False,
      searchKeywords = Some []\<rparr>"

definition beatPath :: "jsstring \<Rightarrow> nat \<Rightarrow> string \<Rightarrow> jsstring" where
  \<comment> \<open>the template string \<open>beats/${uid}/${Date.now()}-full.mp3\<close> and its two siblings\<close>
  "beatPath uid t suffix = js ''beats/'' @ uid @ js ''/'' @ toString t @ js suffix"

definition uploadFile ::
  "Services \<Rightarrow> 'f \<Rightarrow> jsstring \<Rightarrow> ('n, 'f) Library \<Rightarrow> (failure + jsstring) \<times> ('n, 'f) Library" where
  "uploadFile sv file path w =
     (let w1 = w\<lparr>calls := calls w @ [UploadBytes path]\<rparr> in
      if \<not> uploadBytes sv path then (Inl UploadFailed, w1)
      else
        (let w2 = w1\<lparr>files := files w1 @ [(path, file)],
                    calls := calls w1 @ [GetDownloadURL path]\<rparr> in
         case getDownloadURL sv path of
           None \<Rightarrow> (Inl UrlFailed, w2)
         | Some url \<Rightarrow> (Inr url, w2)))"

definition makeSearchKeywords :: "(jsstring \<Rightarrow> jsstring) \<Rightarrow> 'n Beat \<Rightarrow> jsstring list" where
  \<comment> \<open>\<open>toLowerCase\<close> is the parameter \<open>lower\<close>: its case tables belong to the runtime\<close>
  "makeSearchKeywords lower nb =
     filterBoolean
       ([map_option lower (title nb), map_option lower (genre nb),
         map_option lower (producerName nb)]
        @ (case tags nb of None \<Rightarrow> [] | Some ts \<Rightarrow> map (\<lambda>tag. Some (lower tag)) ts))"

definition makeBeat ::
  "(jsstring \<Rightarrow> jsstring) \<Rightarrow> jsstring \<Rightarrow> jsstring \<Rightarrow> jsstring \<Rightarrow> jsstring \<Rightarrow> ('n::zero) Beat
    \<Rightarrow> 'n Beat" where
  \<comment> \<open>the object literal handed to \<open>addDoc\<close>: the spread of the form, then the overrides\<close>
  "makeBeat lower uid audioU previewU imageU nb =
     nb\<lparr>producerId := Some uid,
        producerName := producerName nb,
        audioUrl := Some audioU,
        previewUrl := Some previewU,
        imageUrl := Some imageU,
        duration := Some 0,
        plays := Some 0,
        purchases := Some 0,
        likes := Some 0,
        createdAt := Some ServerTimestamp,
        updatedAt := Some ServerTimestamp,
        searchKeywords := Some (makeSearchKeywords lower nb)\<rparr>"

definition storeBeat ::
  "Services \<Rightarrow> ('n::zero) Beat \<Rightarrow> ('n, 'f) Library \<Rightarrow> (failure + unit) \<times> ('n, 'f) Library" where
  \<comment> \<open>\<open>addDoc\<close>, then \<open>updateDoc(docRef, {id: docRef.id})\<close>, then the reset of the form\<close>
  "storeBeat sv doc w =
     (let w1 = w\<lparr>calls := calls w @ [AddBeat doc]\<rparr> in
      if \<not> addDocOk sv then (Inl CreateFailed, w1)
      else
        (let w2 = w1\<lparr>beatsDocs := beatsDocs w1
                       @ [\<lparr>docId = docRefId sv, docData = doc, docIdField = None\<rparr>],
                    calls := calls w1 @ [SetId (docRefId sv)]\<rparr> in
         if \<not> updateDocOk sv then (Inl UpdateFailed, w2)
         else
           (Inr (),
            w2\<lparr>beatsDocs :=
                  map (\<lambda>d. if docId d = docRefId sv then d\<lparr>docIdField := Some (docRefId sv)\<rparr>
                           else d)
                    (beatsDocs w2),
                newBeat := emptyBeat,
                audioFile := None, previewFile := None, imageFile := None\<rparr>)))"

definition addBeat ::
  "(jsstring \<Rightarrow> jsstring) \<Rightarrow> Services \<Rightarrow> jsstring \<Rightarrow> 'f \<Rightarrow> ('n::zero, 'f) Library
    \<Rightarrow> (failure + unit) \<times> ('n, 'f) Library" where
  \<comment> \<open>the body of the \<open>try\<close>, for the user \<open>uid\<close> and the audio file \<open>audio\<close>\<close>
  "addBeat lower sv uid audio w =
     (case uploadFile sv audio (beatPath uid (dateNow sv 0) ''-full.mp3'') w of
        (Inl e, w1) \<Rightarrow> (Inl e, w1)
      | (Inr aUrl, w1) \<Rightarrow>
          (case (case previewFile w of
                   Some f \<Rightarrow> uploadFile sv f (beatPath uid (dateNow sv 1) ''-preview.mp3'') w1
                 | None \<Rightarrow> (Inr aUrl, w1)) of
             (Inl e, w2) \<Rightarrow> (Inl e, w2)
           | (Inr pUrl, w2) \<Rightarrow>
               (case (case imageFile w of
                        Some f \<Rightarrow>
                          uploadFile sv f
                            (beatPath uid
                               (dateNow sv (if previewFile w = None then 1 else 2))
                               ''-cover.jpg'') w2
                      | None \<Rightarrow> (Inr [], w2)) of
                  (Inl e, w3) \<Rightarrow> (Inl e, w3)
                | (Inr iUrl, w3) \<Rightarrow>
                    storeBeat sv (makeBeat lower uid aUrl pUrl iUrl (newBeat w))
                      w3)))"

definition handleAddBeat ::
  "(jsstring \<Rightarrow> jsstring) \<Rightarrow> Services \<Rightarrow> ('n::zero, 'f) Library \<Rightarrow> ('n, 'f) Library" where
  "handleAddBeat lower sv w =
     (case currentUser sv of
        None \<Rightarrow> w\<lparr>alerts := alerts w @ [js ''Please sign in to upload beats'']\<rparr>
      | Some uid \<Rightarrow>
          (case audioFile w of
             Some audio \<Rightarrow>
               if \<not> truthy (title (newBeat w)) \<or> \<not> truthy (genre (newBeat w))
                  \<or> \<not> truthy (producerName (newBeat w))
               then w\<lparr>alerts := alerts w
                       @ [js ''Please fill in all required fields and upload an audio file'']\<rparr>
               else
                 (case addBeat lower sv uid audio (w\<lparr>loading := True\<rparr>) of
                    (Inr u, w') \<Rightarrow> w'\<lparr>loading := False\<rparr>
                  | (Inl e, w') \<Rightarrow>
                      w'\<lparr>logged := logged w' @ [(js ''Error adding beat: '', e)],
                         alerts := alerts w' @ [js ''Failed to add beat''],
                         loading := False\<rparr>)
           | None \<Rightarrow>
               w\<lparr>alerts := alerts w
                    @ [js ''Please fill in all required fields and upload an audio file'']\<rparr>))"

definition asciiLower :: "jsstring \<Rightarrow> jsstring" where
  \<comment> \<open>\<open>toLowerCase\<close> on strings of ASCII characters\<close>
  "asciiLower s = map (\<lambda>c. if 0x41 \<le> c \<and> c \<le> 0x5A then c + 0x20 else c) s"

subsection \<open>A signed-in user and a filled form\<close>

definition signedIn :: Services where
  "signedIn =
     \<lparr>currentUser = Some (js ''u1''), dateNow = (\<lambda>k. 1700 + k), uploadBytes = (\<lambda>p. True),
      getDownloadURL = (\<lambda>p. Some (js ''https://cdn/'' @ p)), addDocOk = True,
      docRefId = js ''b1'', updateDocOk = True\<rparr>"

definition signedOut :: Services where
  "signedOut = signedIn\<lparr>currentUser := None\<rparr>"

definition filledForm :: "(int, jsstring) Library" where
  "filledForm =
     \<lparr>newBeat = emptyBeat\<lparr>title := Some (js ''Night Drive''), producerName := Some (js ''DJ Gio''),
                  genre := Some (js ''Afro''), tags := Some [js ''Chill'', [], js ''night'']\<rparr>,
      audioFile = Some (js ''RIFF''), previewFile = None, imageFile = None, loading = False,
      beatsDocs = [], files = [], calls = [], alerts = [], logged = []\<rparr>"

definition untitledForm :: "(int, jsstring) Library" where
  "untitledForm = filledForm\<lparr>newBeat := (newBeat filledForm)\<lparr>title := Some []\<rparr>\<rparr>"

section \<open>The writes of an activation\<close>

lemma id_setActive [simp]: "id' (setActive i b d) = id' d"
  by (simp add: setActive_def)

lemma number_setActive [simp]: "number (setActive i b d) = number d"
  by (simp add: setActive_def)

lemma setActive_other: "id' d \<noteq> i \<Longrightarrow> setActive i b d = d"
  by (simp add: setActive_def)

lemma ids_setActive [simp]: "id' ` setActive i b ` A = id' ` A"
  by (simp add: image_image)

lemma awaitAll_docs:
  "fst (awaitAll acc ws docs) = map (applyAll (accepted acc ws)) docs"
proof (induction ws arbitrary: docs)
  case Nil
  show ?case by (simp add: applyAll_def accepted_def)
next
  case (Cons w ws)
  obtain i b where w: "w = (i, b)" by (cases w)
  show ?case
  proof (cases "acc (Update i b)")
    case False
    then show ?thesis
      using Cons.IH [of docs]
      by (cases "awaitAll acc ws docs") (simp add: w updateDoc_def accepted_def)
  next
    case True
    show ?thesis
    proof (cases "i \<in> id' ` set docs")
      case True
      with \<open>acc (Update i b)\<close> show ?thesis
        using Cons.IH [of "map (setActive i b) docs"]
        by (simp add: w updateDoc_def accepted_def applyAll_def)
    next
      case False
      then have "\<And>d. d \<in> set docs \<Longrightarrow> setActive i b d = d"
        by (auto simp: setActive_def)
      then have "map (applyAll (accepted acc (w # ws))) docs = map (applyAll (accepted acc ws)) docs"
        using \<open>acc (Update i b)\<close> by (simp add: w accepted_def applyAll_def)
      with False \<open>acc (Update i b)\<close> show ?thesis
        using Cons.IH [of docs]
        by (cases "awaitAll acc ws docs") (simp add: w updateDoc_def)
    qed
  qed
qed

lemma awaitAll_errors:
  "snd (awaitAll acc ws docs) = [] \<longleftrightarrow>
     (\<forall>(i, b) \<in> set ws. acc (Update i b) \<and> i \<in> id' ` set docs)"
proof (induction ws arbitrary: docs)
  case Nil
  show ?case by simp
next
  case (Cons w ws)
  obtain i b where w: "w = (i, b)" by (cases w)
  show ?case
  proof (cases "acc (Update i b) \<and> i \<in> id' ` set docs")
    case True
    then show ?thesis
      using Cons.IH [of "map (setActive i b) docs"]
      by (simp add: w updateDoc_def)
  next
    case False
    then show ?thesis
      by (cases "awaitAll acc ws docs") (auto simp add: w updateDoc_def)
  qed
qed

lemma applyAll_Cons:
  "applyAll (accepted acc ((i, b) # ws)) d =
     (if acc (Update i b) then applyAll (accepted acc ws) (setActive i b d)
      else applyAll (accepted acc ws) d)"
  by (simp add: applyAll_def accepted_def)

lemma toggled_Cons_target:
  "id' p = target \<Longrightarrow>
   toggled acc (p # ps) target d =
     (if acc (Update target True) then toggled acc ps target (setActive target True d)
      else toggled acc ps target d)"
  by (auto simp add: toggled_def setActive_def)

lemma toggled_Cons_active:
  "id' p \<noteq> target \<Longrightarrow> isActive p \<Longrightarrow>
   toggled acc (p # ps) target d =
     (if acc (Update (id' p) False) then toggled acc ps target (setActive (id' p) False d)
      else toggled acc ps target d)"
  by (cases "id' d = id' p") (auto simp add: toggled_def setActive_def)

lemma toggled_Cons_idle:
  "id' p \<noteq> target \<Longrightarrow> \<not> isActive p \<Longrightarrow> toggled acc (p # ps) target d = toggled acc ps target d"
  by (simp add: toggled_def)

lemma applyAll_batchUpdates:
  "applyAll (accepted acc (batchUpdates view target)) d = toggled acc view target d"
proof (induction view arbitrary: d)
  case Nil
  show ?case by (simp add: applyAll_def accepted_def toggled_def)
next
  case (Cons p ps)
  show ?case
  proof (cases "id' p = target")
    case True
    then show ?thesis
      by (simp add: applyAll_Cons toggled_Cons_target Cons.IH)
  next
    case False
    then show ?thesis
      by (cases "isActive p")
         (simp_all add: applyAll_Cons toggled_Cons_active toggled_Cons_idle Cons.IH)
  qed
qed


lemma inactive_unchanged: "\<not> isActive d \<Longrightarrow> d\<lparr>isActive := False\<rparr> = d"
  by (cases d) simp

lemma active_unchanged: "isActive d \<Longrightarrow> d\<lparr>isActive := True\<rparr> = d"
  by (cases d) simp

lemma batchUpdates_filter:
  "batchUpdates view target =
     map (\<lambda>p. (id' p, id' p = target)) (filter (\<lambda>p. id' p = target \<or> isActive p) view)"
  by (induction view) simp_all

lemma toggle_docs:
  "adminPhoneGio (handleToggleActive acc target w) =
     map (toggled acc (phoneNumbers w) target) (adminPhoneGio w)"
proof -
  obtain docs es where r: "awaitAll acc (batchUpdates (phoneNumbers w) target) (adminPhoneGio w) = (docs, es)"
    by (cases "awaitAll acc (batchUpdates (phoneNumbers w) target) (adminPhoneGio w)")
  have "docs = map (applyAll (accepted acc (batchUpdates (phoneNumbers w) target))) (adminPhoneGio w)"
    using awaitAll_docs [of acc "batchUpdates (phoneNumbers w) target" "adminPhoneGio w"] r by simp
  then have "docs = map (toggled acc (phoneNumbers w) target) (adminPhoneGio w)"
    by (simp add: applyAll_batchUpdates)
  then show ?thesis
    using r by (cases es) (simp_all add: handleToggleActive_def)
qed

lemma toggle_console:
  "console (handleToggleActive acc target w) = console w \<longleftrightarrow>
     (\<forall>(i, b) \<in> set (batchUpdates (phoneNumbers w) target).
        acc (Update i b) \<and> i \<in> id' ` set (adminPhoneGio w))"
proof -
  obtain docs es where r: "awaitAll acc (batchUpdates (phoneNumbers w) target) (adminPhoneGio w) = (docs, es)"
    by (cases "awaitAll acc (batchUpdates (phoneNumbers w) target) (adminPhoneGio w)")
  have "es = [] \<longleftrightarrow>
     (\<forall>(i, b) \<in> set (batchUpdates (phoneNumbers w) target).
        acc (Update i b) \<and> i \<in> id' ` set (adminPhoneGio w))"
    using awaitAll_errors [of acc "batchUpdates (phoneNumbers w) target" "adminPhoneGio w"] r by simp
  moreover have "console (handleToggleActive acc target w) = console w \<longleftrightarrow> es = []"
    using r by (cases es) (simp_all add: handleToggleActive_def)
  ultimately show ?thesis by simp
qed

lemma toggle_frame:
  "phoneNumbers (handleToggleActive acc target w) = phoneNumbers w"
  "newPhoneNumber (handleToggleActive acc target w) = newPhoneNumber w"
  "deleteDialog (handleToggleActive acc target w) = deleteDialog w"
  "issued (handleToggleActive acc target w) =
     issued w @ map (\<lambda>(i, b). Update i b) (batchUpdates (phoneNumbers w) target)"
  by (simp_all add: handleToggleActive_def Let_def split: prod.splits list.splits)

lemma toggled_succeeded:
  assumes ok: "\<forall>(i, b) \<in> set (batchUpdates view target). acc (Update i b)"
    and d: "d \<in> set view" and t: "target \<in> id' ` set view"
  shows "toggled acc view target d = d\<lparr>isActive := (id' d = target)\<rparr>"
proof (cases "id' d = target")
  case True
  with d have "(target, True) \<in> set (batchUpdates view target)"
    by (auto simp add: batchUpdates_filter)
  with ok have "acc (Update target True)" by auto
  with True t show ?thesis by (simp add: toggled_def)
next
  case False
  show ?thesis
  proof (cases "isActive d")
    case True
    with d False have "(id' d, False) \<in> set (batchUpdates view target)"
      by (auto simp add: batchUpdates_filter)
    with ok have "acc (Update (id' d) False)" by auto
    with True False d show ?thesis by (auto simp add: toggled_def)
  next
    case inactive: False
    with False show ?thesis by (simp add: toggled_def inactive_unchanged)
  qed
qed

lemma unique_id:
  "distinct (map id' docs) \<Longrightarrow> target \<in> id' ` set docs \<Longrightarrow>
   length (filter (\<lambda>d. id' d = target) docs) = 1"
proof (induction docs)
  case Nil
  then show ?case by simp
next
  case (Cons d docs)
  show ?case
  proof (cases "id' d = target")
    case True
    from Cons.prems have "id' d \<notin> id' ` set docs" by simp
    with True have "\<forall>x \<in> set docs. id' x \<noteq> target" by (metis image_eqI)
    then have "filter (\<lambda>d. id' d = target) docs = []"
      by (simp add: filter_empty_conv)
    with True show ?thesis by simp
  next
    case False
    with Cons show ?thesis by simp
  qed
qed

lemma toggle_succeeded_docs:
  assumes sync: "phoneNumbers w = adminPhoneGio w"
    and t: "target \<in> id' ` set (adminPhoneGio w)"
    and ok: "console (handleToggleActive acc target w) = console w"
  shows "adminPhoneGio (handleToggleActive acc target w) =
           map (\<lambda>d. d\<lparr>isActive := (id' d = target)\<rparr>) (adminPhoneGio w)"
proof -
  have "\<forall>(i, b) \<in> set (batchUpdates (adminPhoneGio w) target). acc (Update i b)"
    using ok sync by (auto simp add: toggle_console)
  then have "\<And>d. d \<in> set (adminPhoneGio w) \<Longrightarrow>
      toggled acc (adminPhoneGio w) target d = d\<lparr>isActive := (id' d = target)\<rparr>"
    using toggled_succeeded [of "adminPhoneGio w" target acc] t by blast
  then show ?thesis
    by (simp add: toggle_docs sync)
qed

lemma id_toggled [simp]: "id' (toggled acc view target d) = id' d"
  by (simp add: toggled_def)

lemma number_toggled [simp]: "number (toggled acc view target d) = number d"
  by (simp add: toggled_def)

lemma toggled_never_activates:
  "id' d \<noteq> target \<Longrightarrow> isActive (toggled acc view target d) \<Longrightarrow> isActive d"
  by (simp add: toggled_def split: if_splits)

lemma batchUpdates_target:
  "p \<in> set view \<Longrightarrow> id' p = target \<Longrightarrow> (target, True) \<in> set (batchUpdates view target)"
  by (induction view) auto

lemma batchUpdates_active:
  "p \<in> set view \<Longrightarrow> id' p \<noteq> target \<Longrightarrow> isActive p \<Longrightarrow>
   (id' p, False) \<in> set (batchUpdates view target)"
  by (induction view) auto

lemma toggled_unwritten:
  "\<forall>b. (id' d, b) \<notin> set (batchUpdates view target) \<Longrightarrow> toggled acc view target d = d"
proof -
  assume a: "\<forall>b. (id' d, b) \<notin> set (batchUpdates view target)"
  have 1: "id' d = target \<Longrightarrow> target \<notin> id' ` set view"
  proof
    assume "id' d = target" "target \<in> id' ` set view"
    then obtain p where "p \<in> set view" "id' p = target" by auto
    then have "(target, True) \<in> set (batchUpdates view target)"
      by (rule batchUpdates_target)
    with a \<open>id' d = target\<close> show False by simp
  qed
  have 2: "id' d \<noteq> target \<Longrightarrow> \<not> (\<exists>p \<in> set view. id' p = id' d \<and> isActive p)"
  proof
    assume "id' d \<noteq> target" "\<exists>p \<in> set view. id' p = id' d \<and> isActive p"
    then obtain p where p: "p \<in> set view" "id' p \<noteq> target" "isActive p"
      and e: "id' p = id' d" by auto
    from p have "(id' p, False) \<in> set (batchUpdates view target)"
      by (rule batchUpdates_active)
    with a e show False by simp
  qed
  from 1 2 show ?thesis by (auto simp add: toggled_def)
qed

lemma toggled_idle:
  "id' d \<noteq> target \<Longrightarrow> \<not> isActive d \<Longrightarrow> toggled acc view target d = d"
  by (simp add: toggled_def inactive_unchanged)

lemma batchUpdates_mem:
  "(i, b) \<in> set (batchUpdates view target) \<Longrightarrow>
   \<exists>q \<in> set view. id' q = i \<and> (id' q = target \<or> isActive q)"
  by (induction view) (auto split: if_splits)

lemma distinct_ids_eq:
  "distinct (map id' xs) \<Longrightarrow> p \<in> set xs \<Longrightarrow> q \<in> set xs \<Longrightarrow> id' p = id' q \<Longrightarrow> p = q"
  by (simp add: distinct_map inj_on_def)

lemma add_docs:
  "adminPhoneGio (handleAddPhoneNumber acc newId w) =
     (if trim (newPhoneNumber w) \<noteq> [] \<and> acc (Create (trim (newPhoneNumber w)) False)
      then adminPhoneGio w @ [\<lparr>id' = newId, number = trim (newPhoneNumber w), isActive = False\<rparr>]
      else adminPhoneGio w)"
  by (simp add: handleAddPhoneNumber_def addDoc_def)

lemma delete_docs:
  "adminPhoneGio (handleDeletePhoneNumber acc w) =
     (if truthy (phoneId (deleteDialog w)) \<and> acc (Delete (the (phoneId (deleteDialog w))))
      then filter (\<lambda>d. id' d \<noteq> the (phoneId (deleteDialog w))) (adminPhoneGio w)
      else adminPhoneGio w)"
  by (simp add: handleDeletePhoneNumber_def deleteDoc_def handleCloseDeleteDialog_def Let_def)

lemmas example_defs =
  twoPhones_def stalePhones_def threePhones_def initial_def phoneA_def phoneB_def phoneC_def
  handleToggleActive_def updateDoc_def setActive_def acceptAll_def rejectActivation_def
  activeCount_def js_def

lemma toggled_fixpoint:
  "isActive d = (id' d = target) \<Longrightarrow> toggled acc view target d = d"
  by (simp add: toggled_def inactive_unchanged active_unchanged)

lemma toggled_deactivated:
  "id' d \<noteq> target \<Longrightarrow> \<exists>p \<in> set view. id' p = id' d \<and> isActive p \<Longrightarrow>
   acc (Update (id' d) False) \<Longrightarrow> \<not> isActive (toggled acc view target d)"
  by (simp add: toggled_def)

lemma toggle_console_cases:
  "console (handleToggleActive acc target w) = console w
   \<or> (\<exists>e. console (handleToggleActive acc target w) =
           console w @ [(js ''Error updating phone number status:'', e)])"
  by (simp add: handleToggleActive_def Let_def split: prod.splits list.splits)

lemma activeCount_filter: "activeCount (filter P docs) \<le> activeCount docs"
proof -
  have "filter isActive (filter P docs) = filter P (filter isActive docs)"
    by (simp add: conj_commute)
  then show ?thesis
    by (simp add: activeCount_def del: filter_filter)
qed

lemma delete_frame:
  "phoneNumbers (handleDeletePhoneNumber acc w) = phoneNumbers w"
  by (simp add: handleDeletePhoneNumber_def deleteDoc_def handleCloseDeleteDialog_def Let_def)

lemma deleted_absent:
  "i \<noteq> [] \<Longrightarrow> acc (Delete i) \<Longrightarrow>
   i \<notin> id' ` set (adminPhoneGio (handleDeletePhoneNumber acc (handleOpenDeleteDialog i n w)))"
  by (auto simp add: delete_docs handleOpenDeleteDialog_def truthy_def)

lemma toggle_listed_missing:
  assumes v: "target \<in> id' ` set (phoneNumbers w)"
    and t: "target \<notin> id' ` set (adminPhoneGio w)"
  shows "console (handleToggleActive acc target w) \<noteq> console w"
proof -
  from v obtain p where "p \<in> set (phoneNumbers w)" "id' p = target" by auto
  then have "(target, True) \<in> set (batchUpdates (phoneNumbers w) target)"
    by (rule batchUpdates_target)
  with t show ?thesis by (auto simp add: toggle_console)
qed

lemmas missing_defs =
  emptiedPhones_def handleDeletePhoneNumber_def handleOpenDeleteDialog_def
  handleCloseDeleteDialog_def deleteDoc_def truthy_def Let_def

section \<open>Trimming\<close>

lemma trim_empty_iff: "trim s = [] \<longleftrightarrow> (\<forall>c \<in> set s. isWhiteSpace c)"
proof
  assume "trim s = []"
  then have all: "\<forall>c \<in> set (dropWhile isWhiteSpace s). isWhiteSpace c"
    by (simp add: trim_def)
  have "dropWhile isWhiteSpace s = []"
  proof (rule ccontr)
    assume ne: "dropWhile isWhiteSpace s \<noteq> []"
    then have "\<not> isWhiteSpace (hd (dropWhile isWhiteSpace s))" by (rule hd_dropWhile)
    moreover from ne have "hd (dropWhile isWhiteSpace s) \<in> set (dropWhile isWhiteSpace s)"
      by (rule hd_in_set)
    ultimately show False using all by blast
  qed
  then show "\<forall>c \<in> set s. isWhiteSpace c" by simp
next
  assume "\<forall>c \<in> set s. isWhiteSpace c"
  then have d: "dropWhile isWhiteSpace s = []" by simp
  show "trim s = []" unfolding trim_def d by simp
qed

lemma trim_decomposition:
  "s = takeWhile isWhiteSpace s @ trim s
         @ rev (takeWhile isWhiteSpace (rev (dropWhile isWhiteSpace s)))"
proof -
  let ?r = "rev (dropWhile isWhiteSpace s)"
  have "?r = takeWhile isWhiteSpace ?r @ dropWhile isWhiteSpace ?r" by simp
  then have "rev ?r = rev (dropWhile isWhiteSpace ?r) @ rev (takeWhile isWhiteSpace ?r)"
    by (metis rev_append)
  then have "dropWhile isWhiteSpace s = trim s @ rev (takeWhile isWhiteSpace ?r)"
    by (simp add: trim_def)
  moreover have "s = takeWhile isWhiteSpace s @ dropWhile isWhiteSpace s" by simp
  ultimately show ?thesis by metis
qed

lemma trim_surrounded:
  "\<exists>pre suf. s = pre @ trim s @ suf \<and> list_all isWhiteSpace pre \<and> list_all isWhiteSpace suf"
proof -
  have "list_all isWhiteSpace (takeWhile isWhiteSpace s)"
    by (simp add: list_all_iff) (metis set_takeWhileD)
  moreover have "list_all isWhiteSpace
      (rev (takeWhile isWhiteSpace (rev (dropWhile isWhiteSpace s))))"
    by (simp add: list_all_iff) (metis set_takeWhileD)
  ultimately show ?thesis using trim_decomposition [of s] by blast
qed

lemma trim_ends:
  assumes "trim s \<noteq> []"
  shows "\<not> isWhiteSpace (hd (trim s))" and "\<not> isWhiteSpace (last (trim s))"
proof -
  let ?d = "dropWhile isWhiteSpace s"
  let ?r = "rev ?d"
  from assms have ne: "dropWhile isWhiteSpace ?r \<noteq> []" by (simp add: trim_def)
  then have "\<not> isWhiteSpace (hd (dropWhile isWhiteSpace ?r))" by (rule hd_dropWhile)
  with ne show "\<not> isWhiteSpace (last (trim s))" by (simp add: trim_def last_rev)
  from ne have dne: "?d \<noteq> []" by (metis dropWhile.simps(1) rev.simps(1))
  have "?r = takeWhile isWhiteSpace ?r @ dropWhile isWhiteSpace ?r" by simp
  then have "last ?r = last (dropWhile isWhiteSpace ?r)"
    using ne by (metis last_appendR)
  then have "hd (trim s) = hd ?d"
    using ne dne by (simp add: trim_def hd_rev last_rev)
  moreover from dne have "\<not> isWhiteSpace (hd ?d)" by (rule hd_dropWhile)
  ultimately show "\<not> isWhiteSpace (hd (trim s))" by simp
qed

lemmas add_defs =
  typedPhones_def blankPhones_def twoPhones_def initial_def phoneA_def phoneB_def
  handleAddPhoneNumber_def addDoc_def trim_def isWhiteSpace_def acceptAll_def js_def
  onSnapshot_def

section \<open>Activation\<close>

text \<open>
  Claim C1. Take a collection with one document per identifier, shown in full by the
  component, and a target that is the identifier of one of its items. After a run of
  \<open>handleToggleActive\<close> in which no write failed (nothing was logged), exactly one item
  is active, and an item is active if and only if it is the target. In particular,
  activating 2 in [{id:1, active:true}, {id:2, active:false}] gives
  [{id:1, active:false}, {id:2, active:true}].
\<close>

theorem activate_sole_active:
  "(phoneNumbers w = adminPhoneGio w \<and> distinct (map id' (adminPhoneGio w))
      \<and> target \<in> id' ` set (adminPhoneGio w)
      \<and> console (handleToggleActive acc target w) = console w
    \<longrightarrow> activeCount (adminPhoneGio (handleToggleActive acc target w)) = 1
        \<and> (\<forall>d \<in> set (adminPhoneGio (handleToggleActive acc target w)).
              isActive d = (id' d = target)))
   \<and> adminPhoneGio
        (handleToggleActive acceptAll (js ''2'')
          (initial [\<lparr>id' = js ''1'', number = n1, isActive = True\<rparr>,
                    \<lparr>id' = js ''2'', number = n2, isActive = False\<rparr>]))
      = [\<lparr>id' = js ''1'', number = n1, isActive = False\<rparr>,
         \<lparr>id' = js ''2'', number = n2, isActive = True\<rparr>]"
proof (intro conjI impI)
  assume a: "phoneNumbers w = adminPhoneGio w \<and> distinct (map id' (adminPhoneGio w))
      \<and> target \<in> id' ` set (adminPhoneGio w)
      \<and> console (handleToggleActive acc target w) = console w"
  then have docs: "adminPhoneGio (handleToggleActive acc target w) =
      map (\<lambda>d. d\<lparr>isActive := (id' d = target)\<rparr>) (adminPhoneGio w)"
    by (simp add: toggle_succeeded_docs)
  show "activeCount (adminPhoneGio (handleToggleActive acc target w)) = 1"
    using a by (simp add: docs activeCount_def filter_map comp_def unique_id)
  show "\<forall>d \<in> set (adminPhoneGio (handleToggleActive acc target w)). isActive d = (id' d = target)"
    by (auto simp add: docs)
next
  show "adminPhoneGio
        (handleToggleActive acceptAll (js ''2'')
          (initial [\<lparr>id' = js ''1'', number = n1, isActive = True\<rparr>,
                    \<lparr>id' = js ''2'', number = n2, isActive = False\<rparr>]))
      = [\<lparr>id' = js ''1'', number = n1, isActive = False\<rparr>,
         \<lparr>id' = js ''2'', number = n2, isActive = True\<rparr>]"
    by (simp add: handleToggleActive_def initial_def updateDoc_def setActive_def acceptAll_def js_def)
qed

theorem activate_sole_active_witness:
  "phoneNumbers twoPhones = adminPhoneGio twoPhones
   \<and> distinct (map id' (adminPhoneGio twoPhones))
   \<and> js ''2'' \<in> id' ` set (adminPhoneGio twoPhones)
   \<and> console (handleToggleActive acceptAll (js ''2'') twoPhones) = console twoPhones
   \<and> activeCount (adminPhoneGio (handleToggleActive acceptAll (js ''2'') twoPhones)) = 1"
proof -
  have h: "phoneNumbers twoPhones = adminPhoneGio twoPhones
      \<and> distinct (map id' (adminPhoneGio twoPhones))
      \<and> js ''2'' \<in> id' ` set (adminPhoneGio twoPhones)
      \<and> console (handleToggleActive acceptAll (js ''2'') twoPhones) = console twoPhones"
    by (simp add: twoPhones_def initial_def phoneA_def phoneB_def handleToggleActive_def
        updateDoc_def setActive_def acceptAll_def js_def)
  from activate_sole_active [where w = twoPhones and target = "js ''2''" and acc = acceptAll]
  have "activeCount (adminPhoneGio (handleToggleActive acceptAll (js ''2'') twoPhones)) = 1"
    using h by blast
  with h show ?thesis by simp
qed


text \<open>
  Claim C2. The handler is only ever called from the button of a row of \<open>phoneNumbers\<close>,
  so its target is the identifier of a listed item. If no document of the collection has
  this identifier (the collection is empty, or the item has been deleted and the list does
  not show it yet), the run fails: the write to the target is refused and one error is
  logged. Every document keeps its identifier and number, no flag is set to true, and an
  empty collection stays empty. In particular, once the deletion of a listed item has been
  confirmed and accepted, its document is gone, and activating it fails.
\<close>

theorem activate_missing_target:
  "(target \<in> id' ` set (phoneNumbers w) \<and> target \<notin> id' ` set (adminPhoneGio w) \<longrightarrow>
      (\<exists>e. console (handleToggleActive acc target w) =
             console w @ [(js ''Error updating phone number status:'', e)])
      \<and> list_all2
           (\<lambda>d d'. id' d' = id' d \<and> number d' = number d \<and> (isActive d' \<longrightarrow> isActive d))
           (adminPhoneGio w) (adminPhoneGio (handleToggleActive acc target w))
      \<and> (adminPhoneGio w = [] \<longrightarrow> adminPhoneGio (handleToggleActive acc target w) = []))
   \<and> (target \<in> id' ` set (phoneNumbers w) \<and> target \<noteq> [] \<and> acc' (Delete target) \<longrightarrow>
        target \<notin> id' ` set (adminPhoneGio
                              (handleDeletePhoneNumber acc' (handleOpenDeleteDialog target n w)))
        \<and> (\<exists>e. console (handleToggleActive acc target
                            (handleDeletePhoneNumber acc' (handleOpenDeleteDialog target n w))) =
                 console (handleDeletePhoneNumber acc' (handleOpenDeleteDialog target n w))
                 @ [(js ''Error updating phone number status:'', e)]))"
proof (intro conjI impI)
  assume a: "target \<in> id' ` set (phoneNumbers w) \<and> target \<notin> id' ` set (adminPhoneGio w)"
  then have "console (handleToggleActive acc target w) \<noteq> console w"
    by (simp add: toggle_listed_missing)
  with toggle_console_cases [of acc target w]
  show "\<exists>e. console (handleToggleActive acc target w) =
             console w @ [(js ''Error updating phone number status:'', e)]"
    by simp
  from a have nt: "\<And>d. d \<in> set (adminPhoneGio w) \<Longrightarrow> id' d \<noteq> target" by (metis image_eqI)
  have "\<And>d. d \<in> set (adminPhoneGio w) \<Longrightarrow>
      isActive (toggled acc (phoneNumbers w) target d) \<longrightarrow> isActive d"
    using nt toggled_never_activates by blast
  then show "list_all2
           (\<lambda>d d'. id' d' = id' d \<and> number d' = number d \<and> (isActive d' \<longrightarrow> isActive d))
           (adminPhoneGio w) (adminPhoneGio (handleToggleActive acc target w))"
    by (simp add: toggle_docs list_all2_map2 list_all2_same)
  show "adminPhoneGio (handleToggleActive acc target w) = []" if "adminPhoneGio w = []"
    using that by (simp add: toggle_docs)
next
  let ?w = "handleDeletePhoneNumber acc' (handleOpenDeleteDialog target n w)"
  assume b: "target \<in> id' ` set (phoneNumbers w) \<and> target \<noteq> [] \<and> acc' (Delete target)"
  then show gone: "target \<notin> id' ` set (adminPhoneGio ?w)"
    by (simp add: deleted_absent)
  from b have "target \<in> id' ` set (phoneNumbers ?w)"
    by (simp add: delete_frame handleOpenDeleteDialog_def)
  then have "console (handleToggleActive acc target ?w) \<noteq> console ?w"
    using gone by (rule toggle_listed_missing)
  with toggle_console_cases [of acc target ?w]
  show "\<exists>e. console (handleToggleActive acc target ?w) =
             console ?w @ [(js ''Error updating phone number status:'', e)]"
    by simp
qed

theorem activate_missing_target_witness:
  "js ''2'' \<in> id' ` set (phoneNumbers stalePhones)
   \<and> js ''2'' \<notin> id' ` set (adminPhoneGio stalePhones)
   \<and> console (handleToggleActive acceptAll (js ''2'') stalePhones) =
       [(js ''Error updating phone number status:'', NotFound)]
   \<and> adminPhoneGio (handleToggleActive acceptAll (js ''2'') stalePhones) =
       [phoneA\<lparr>isActive := False\<rparr>]
   \<and> js ''2'' \<in> id' ` set (phoneNumbers emptiedPhones)
   \<and> adminPhoneGio emptiedPhones = []
   \<and> console (handleToggleActive acceptAll (js ''2'') emptiedPhones) =
       [(js ''Error updating phone number status:'', NotFound)]
   \<and> adminPhoneGio (handleToggleActive acceptAll (js ''2'') emptiedPhones) = []
   \<and> js ''2'' \<in> id' ` set (phoneNumbers twoPhones)
   \<and> js ''2'' \<noteq> []
   \<and> acceptAll (Delete (js ''2''))
   \<and> adminPhoneGio
        (handleDeletePhoneNumber acceptAll
          (handleOpenDeleteDialog (js ''2'') (number phoneB) twoPhones)) = [phoneA]
   \<and> console
        (handleToggleActive acceptAll (js ''2'')
          (handleDeletePhoneNumber acceptAll
            (handleOpenDeleteDialog (js ''2'') (number phoneB) twoPhones))) =
       [(js ''Error updating phone number status:'', NotFound)]"
proof -
  have h: "js ''2'' \<in> id' ` set (phoneNumbers stalePhones)"
    "js ''2'' \<notin> id' ` set (adminPhoneGio stalePhones)"
    "js ''2'' \<in> id' ` set (phoneNumbers emptiedPhones)"
    "adminPhoneGio emptiedPhones = []"
    "js ''2'' \<in> id' ` set (phoneNumbers twoPhones)"
    "js ''2'' \<noteq> []"
    "acceptAll (Delete (js ''2''))"
    by (simp_all add: example_defs missing_defs)
  from activate_missing_target [where w = stalePhones and target = "js ''2''" and acc = acceptAll]
    h(1,2)
  have "\<exists>e. console (handleToggleActive acceptAll (js ''2'') stalePhones) =
      console stalePhones @ [(js ''Error updating phone number status:'', e)]"
    by blast
  then have c1: "console (handleToggleActive acceptAll (js ''2'') stalePhones) =
       [(js ''Error updating phone number status:'', NotFound)]"
    by (simp add: example_defs)
  from activate_missing_target [where w = emptiedPhones and target = "js ''2''" and acc = acceptAll]
    h(3,4)
  have d2: "adminPhoneGio (handleToggleActive acceptAll (js ''2'') emptiedPhones) = []"
    by simp
  have e: "adminPhoneGio (handleToggleActive acceptAll (js ''2'') stalePhones) =
       [phoneA\<lparr>isActive := False\<rparr>]"
    "console (handleToggleActive acceptAll (js ''2'') emptiedPhones) =
       [(js ''Error updating phone number status:'', NotFound)]"
    "adminPhoneGio
        (handleDeletePhoneNumber acceptAll
          (handleOpenDeleteDialog (js ''2'') (number phoneB) twoPhones)) = [phoneA]"
    "console
        (handleToggleActive acceptAll (js ''2'')
          (handleDeletePhoneNumber acceptAll
            (handleOpenDeleteDialog (js ''2'') (number phoneB) twoPhones))) =
       [(js ''Error updating phone number status:'', NotFound)]"
    by (simp_all add: example_defs missing_defs)
  from h c1 d2 e show ?thesis by simp
qed

section \<open>The frame of the operations\<close>

text \<open>
  Claim C4. The writes that \<open>handleToggleActive\<close> issues are, in the order of the array,
  one per item that is the target or is active: true for the target, false for the
  others. With one item per identifier, an item that is neither the target nor active
  receives no write. In the collection, every document keeps its identifier and its
  number, and a document that is neither the target nor active, or that receives no
  write, is left as it was. Adding only appends to the collection and deleting only
  removes from it, so no operation changes a number or an identifier.
\<close>

theorem activate_frame:
  "issued (handleToggleActive acc target w) =
     issued w @ map (\<lambda>p. Update (id' p) (id' p = target))
                  (filter (\<lambda>p. id' p = target \<or> isActive p) (phoneNumbers w))
   \<and> (distinct (map id' (phoneNumbers w)) \<longrightarrow>
        (\<forall>p \<in> set (phoneNumbers w). id' p \<noteq> target \<and> \<not> isActive p \<longrightarrow>
           (\<forall>b. Update (id' p) b \<notin> set (map (\<lambda>(i, b). Update i b)
                                            (batchUpdates (phoneNumbers w) target)))))
   \<and> list_all2
        (\<lambda>d d'. id' d' = id' d \<and> number d' = number d
           \<and> ((id' d \<noteq> target \<and> \<not> isActive d)
               \<or> (\<forall>b. (id' d, b) \<notin> set (batchUpdates (phoneNumbers w) target))
              \<longrightarrow> d' = d))
        (adminPhoneGio w) (adminPhoneGio (handleToggleActive acc target w))
   \<and> (\<exists>new. adminPhoneGio (handleAddPhoneNumber acc newId w) = adminPhoneGio w @ new)
   \<and> (\<exists>keep. adminPhoneGio (handleDeletePhoneNumber acc w) = filter keep (adminPhoneGio w))"
proof (intro conjI impI ballI allI)
  show "issued (handleToggleActive acc target w) =
     issued w @ map (\<lambda>p. Update (id' p) (id' p = target))
                  (filter (\<lambda>p. id' p = target \<or> isActive p) (phoneNumbers w))"
    by (simp add: toggle_frame batchUpdates_filter comp_def)
next
  fix p b
  assume dist: "distinct (map id' (phoneNumbers w))" and p: "p \<in> set (phoneNumbers w)"
    and idle: "id' p \<noteq> target \<and> \<not> isActive p"
  show "Update (id' p) b \<notin> set (map (\<lambda>(i, b). Update i b) (batchUpdates (phoneNumbers w) target))"
  proof
    assume "Update (id' p) b \<in> set (map (\<lambda>(i, b). Update i b) (batchUpdates (phoneNumbers w) target))"
    then have "(id' p, b) \<in> set (batchUpdates (phoneNumbers w) target)" by auto
    then obtain q where q: "q \<in> set (phoneNumbers w)" "id' q = id' p"
      "id' q = target \<or> isActive q"
      by (auto dest: batchUpdates_mem)
    with dist p have "q = p" by (simp add: distinct_ids_eq)
    with q idle show False by simp
  qed
next
  have "\<And>d. (id' d \<noteq> target \<and> \<not> isActive d)
          \<or> (\<forall>b. (id' d, b) \<notin> set (batchUpdates (phoneNumbers w) target))
        \<longrightarrow> toggled acc (phoneNumbers w) target d = d"
    using toggled_idle toggled_unwritten by blast
  then show "list_all2
        (\<lambda>d d'. id' d' = id' d \<and> number d' = number d
           \<and> ((id' d \<noteq> target \<and> \<not> isActive d)
               \<or> (\<forall>b. (id' d, b) \<notin> set (batchUpdates (phoneNumbers w) target))
              \<longrightarrow> d' = d))
        (adminPhoneGio w) (adminPhoneGio (handleToggleActive acc target w))"
    by (simp add: toggle_docs list_all2_map2 list_all2_same)
next
  show "\<exists>new. adminPhoneGio (handleAddPhoneNumber acc newId w) = adminPhoneGio w @ new"
    by (simp add: add_docs)
next
  have "adminPhoneGio w = filter (\<lambda>d. True) (adminPhoneGio w)" by simp
  then show "\<exists>keep. adminPhoneGio (handleDeletePhoneNumber acc w) = filter keep (adminPhoneGio w)"
    unfolding delete_docs by (metis (full_types))
qed

theorem activate_frame_witness:
  "distinct (map id' (phoneNumbers threePhones))
   \<and> phoneC \<in> set (phoneNumbers threePhones)
   \<and> id' phoneC \<noteq> js ''2'' \<and> \<not> isActive phoneC
   \<and> issued (handleToggleActive acceptAll (js ''2'') threePhones)
       = [Update (js ''1'') False, Update (js ''2'') True]
   \<and> adminPhoneGio (handleToggleActive acceptAll (js ''2'') threePhones)
       = [phoneA\<lparr>isActive := False\<rparr>, phoneB\<lparr>isActive := True\<rparr>, phoneC]"
proof -
  have h: "distinct (map id' (phoneNumbers threePhones))"
    "phoneC \<in> set (phoneNumbers threePhones)" "id' phoneC \<noteq> js ''2''" "\<not> isActive phoneC"
    by (simp_all add: example_defs)
  from activate_frame [where w = threePhones and target = "js ''2''" and acc = acceptAll]
  have "issued (handleToggleActive acceptAll (js ''2'') threePhones) =
      issued threePhones @ map (\<lambda>p. Update (id' p) (id' p = js ''2''))
        (filter (\<lambda>p. id' p = js ''2'' \<or> isActive p) (phoneNumbers threePhones))"
    by (rule conjunct1)
  then have i: "issued (handleToggleActive acceptAll (js ''2'') threePhones)
      = [Update (js ''1'') False, Update (js ''2'') True]"
    by (simp add: example_defs)
  have d: "adminPhoneGio (handleToggleActive acceptAll (js ''2'') threePhones)
      = [phoneA\<lparr>isActive := False\<rparr>, phoneB\<lparr>isActive := True\<rparr>, phoneC]"
    by (simp add: example_defs)
  from h i d show ?thesis by simp
qed

section \<open>Failures of an activation\<close>

text \<open>
  Claim C5. If a write issued by \<open>handleToggleActive\<close> fails (the backend rejects it, or
  its document does not exist), the run logs an error. Whether or not it does, every
  accepted deactivation stays applied: a document other than the target whose item the
  component shows as active, and whose deactivating write the backend accepts, is
  inactive afterwards. So there is a failing run on a collection with one active item
  after which no item is active.
\<close>

theorem activate_not_atomic:
  "((\<exists>(i, b) \<in> set (batchUpdates (phoneNumbers w) target).
        \<not> acc (Update i b) \<or> i \<notin> id' ` set (adminPhoneGio w))
     \<longrightarrow> (\<exists>e. console (handleToggleActive acc target w) =
               console w @ [(js ''Error updating phone number status:'', e)]))
   \<and> list_all2
        (\<lambda>d d'. id' d \<noteq> target \<and> (\<exists>p \<in> set (phoneNumbers w). id' p = id' d \<and> isActive p)
                  \<and> acc (Update (id' d) False)
                \<longrightarrow> \<not> isActive d')
        (adminPhoneGio w) (adminPhoneGio (handleToggleActive acc target w))
   \<and> (\<exists>acc' w' target'.
         phoneNumbers w' = adminPhoneGio w' \<and> activeCount (adminPhoneGio w') = 1
         \<and> target' \<in> id' ` set (adminPhoneGio w')
         \<and> console (handleToggleActive acc' target' w') \<noteq> console w'
         \<and> activeCount (adminPhoneGio (handleToggleActive acc' target' w')) = 0)"
proof (intro conjI impI)
  assume "\<exists>(i, b) \<in> set (batchUpdates (phoneNumbers w) target).
        \<not> acc (Update i b) \<or> i \<notin> id' ` set (adminPhoneGio w)"
  then have "console (handleToggleActive acc target w) \<noteq> console w"
    by (simp add: toggle_console) blast
  with toggle_console_cases [of acc target w]
  show "\<exists>e. console (handleToggleActive acc target w) =
               console w @ [(js ''Error updating phone number status:'', e)]"
    by simp
next
  show "list_all2
        (\<lambda>d d'. id' d \<noteq> target \<and> (\<exists>p \<in> set (phoneNumbers w). id' p = id' d \<and> isActive p)
                  \<and> acc (Update (id' d) False)
                \<longrightarrow> \<not> isActive d')
        (adminPhoneGio w) (adminPhoneGio (handleToggleActive acc target w))"
    by (simp add: toggle_docs list_all2_map2 list_all2_same toggled_deactivated)
next
  have "phoneNumbers twoPhones = adminPhoneGio twoPhones \<and> activeCount (adminPhoneGio twoPhones) = 1
         \<and> js ''2'' \<in> id' ` set (adminPhoneGio twoPhones)
         \<and> console (handleToggleActive rejectActivation (js ''2'') twoPhones) \<noteq> console twoPhones
         \<and> activeCount (adminPhoneGio (handleToggleActive rejectActivation (js ''2'') twoPhones)) = 0"
    by (simp add: example_defs)
  then show "\<exists>acc' w' target'.
         phoneNumbers w' = adminPhoneGio w' \<and> activeCount (adminPhoneGio w') = 1
         \<and> target' \<in> id' ` set (adminPhoneGio w')
         \<and> console (handleToggleActive acc' target' w') \<noteq> console w'
         \<and> activeCount (adminPhoneGio (handleToggleActive acc' target' w')) = 0"
    by blast
qed

theorem activate_not_atomic_witness:
  "(js ''2'', True) \<in> set (batchUpdates (phoneNumbers twoPhones) (js ''2''))
   \<and> \<not> rejectActivation (Update (js ''2'') True)
   \<and> console (handleToggleActive rejectActivation (js ''2'') twoPhones) =
       console twoPhones @ [(js ''Error updating phone number status:'', Rejected)]
   \<and> adminPhoneGio (handleToggleActive rejectActivation (js ''2'') twoPhones) =
       [phoneA\<lparr>isActive := False\<rparr>, phoneB]"
proof -
  have h: "(js ''2'', True) \<in> set (batchUpdates (phoneNumbers twoPhones) (js ''2''))"
    "\<not> rejectActivation (Update (js ''2'') True)"
    by (simp_all add: example_defs)
  then have "\<exists>(i, b) \<in> set (batchUpdates (phoneNumbers twoPhones) (js ''2'')).
        \<not> rejectActivation (Update i b) \<or> i \<notin> id' ` set (adminPhoneGio twoPhones)"
    by blast
  with activate_not_atomic [where w = twoPhones and target = "js ''2''" and acc = rejectActivation]
  have "\<exists>e. console (handleToggleActive rejectActivation (js ''2'') twoPhones) =
               console twoPhones @ [(js ''Error updating phone number status:'', e)]"
    by blast
  then have c: "console (handleToggleActive rejectActivation (js ''2'') twoPhones) =
       console twoPhones @ [(js ''Error updating phone number status:'', Rejected)]"
    by (simp add: example_defs)
  have d: "adminPhoneGio (handleToggleActive rejectActivation (js ''2'') twoPhones) =
       [phoneA\<lparr>isActive := False\<rparr>, phoneB]"
    by (simp add: example_defs)
  from h c d show ?thesis by simp
qed

section \<open>The invariant\<close>

text \<open>
  Claim C7. If at most one document of the collection is active, then at most one is
  active after \<open>handleAddPhoneNumber\<close>, after \<open>handleDeletePhoneNumber\<close> (also right after
  the dialog was opened for an item), and, when the collection has one document per
  identifier, is shown in full and contains the target, after a run of
  \<open>handleToggleActive\<close> that logged no error.
\<close>

theorem single_active_preserved:
  "activeCount (adminPhoneGio w) \<le> 1 \<longrightarrow>
     activeCount (adminPhoneGio (handleAddPhoneNumber acc newId w)) \<le> 1
     \<and> activeCount (adminPhoneGio (handleDeletePhoneNumber acc w)) \<le> 1
     \<and> activeCount (adminPhoneGio (handleDeletePhoneNumber acc (handleOpenDeleteDialog i n w))) \<le> 1
     \<and> (phoneNumbers w = adminPhoneGio w \<and> distinct (map id' (adminPhoneGio w))
          \<and> target \<in> id' ` set (adminPhoneGio w)
          \<and> console (handleToggleActive acc target w) = console w
        \<longrightarrow> activeCount (adminPhoneGio (handleToggleActive acc target w)) \<le> 1)"
proof (intro impI conjI)
  assume inv: "activeCount (adminPhoneGio w) \<le> 1"
  then show "activeCount (adminPhoneGio (handleAddPhoneNumber acc newId w)) \<le> 1"
    by (simp add: add_docs activeCount_def)
  have "activeCount (filter P (adminPhoneGio w)) \<le> 1" for P
    using inv activeCount_filter [of P "adminPhoneGio w"] by simp
  then show "activeCount (adminPhoneGio (handleDeletePhoneNumber acc w)) \<le> 1"
    using inv by (simp add: delete_docs)
  have "adminPhoneGio (handleOpenDeleteDialog i n w) = adminPhoneGio w"
    by (simp add: handleOpenDeleteDialog_def)
  with \<open>\<And>P. activeCount (filter P (adminPhoneGio w)) \<le> 1\<close>
  show "activeCount (adminPhoneGio (handleDeletePhoneNumber acc (handleOpenDeleteDialog i n w))) \<le> 1"
    using inv by (simp add: delete_docs)
next
  assume a: "phoneNumbers w = adminPhoneGio w \<and> distinct (map id' (adminPhoneGio w))
          \<and> target \<in> id' ` set (adminPhoneGio w)
          \<and> console (handleToggleActive acc target w) = console w"
  then have "adminPhoneGio (handleToggleActive acc target w) =
      map (\<lambda>d. d\<lparr>isActive := (id' d = target)\<rparr>) (adminPhoneGio w)"
    by (simp add: toggle_succeeded_docs)
  then show "activeCount (adminPhoneGio (handleToggleActive acc target w)) \<le> 1"
    using a by (simp add: activeCount_def filter_map comp_def unique_id)
qed

theorem single_active_preserved_witness:
  "activeCount (adminPhoneGio typedPhones) \<le> 1
   \<and> phoneNumbers typedPhones = adminPhoneGio typedPhones
   \<and> distinct (map id' (adminPhoneGio typedPhones))
   \<and> js ''2'' \<in> id' ` set (adminPhoneGio typedPhones)
   \<and> console (handleToggleActive acceptAll (js ''2'') typedPhones) = console typedPhones
   \<and> activeCount (adminPhoneGio (handleAddPhoneNumber acceptAll (js ''3'') typedPhones)) \<le> 1
   \<and> activeCount
        (adminPhoneGio
          (handleDeletePhoneNumber acceptAll
            (handleOpenDeleteDialog (js ''1'') (number phoneA) typedPhones))) \<le> 1
   \<and> activeCount (adminPhoneGio (handleToggleActive acceptAll (js ''2'') typedPhones)) \<le> 1"
proof -
  have h: "activeCount (adminPhoneGio typedPhones) \<le> 1"
    "phoneNumbers typedPhones = adminPhoneGio typedPhones"
    "distinct (map id' (adminPhoneGio typedPhones))"
    "js ''2'' \<in> id' ` set (adminPhoneGio typedPhones)"
    "console (handleToggleActive acceptAll (js ''2'') typedPhones) = console typedPhones"
    by (simp_all add: typedPhones_def example_defs)
  from single_active_preserved
    [where w = typedPhones and acc = acceptAll and newId = "js ''3''" and i = "js ''1''"
       and n = "number phoneA" and target = "js ''2''"] h
  have "activeCount (adminPhoneGio (handleAddPhoneNumber acceptAll (js ''3'') typedPhones)) \<le> 1
   \<and> activeCount
        (adminPhoneGio
          (handleDeletePhoneNumber acceptAll
            (handleOpenDeleteDialog (js ''1'') (number phoneA) typedPhones))) \<le> 1
   \<and> activeCount (adminPhoneGio (handleToggleActive acceptAll (js ''2'') typedPhones)) \<le> 1"
    by blast
  with h show ?thesis by blast
qed

section \<open>Repeating an activation\<close>

text \<open>
  Claim C8. Let the collection be shown in full and contain the target, and let a run of
  \<open>handleToggleActive\<close> log no error. A second run for the same target, whatever the
  backend does with it, leaves the collection as the first run left it, both when the
  snapshot of the first run has arrived and when it has not; with the snapshot, every
  write of the second run is a write of true to the target.
\<close>

theorem activate_idempotent:
  "phoneNumbers w = adminPhoneGio w \<and> target \<in> id' ` set (adminPhoneGio w)
   \<and> console (handleToggleActive acc target w) = console w
   \<longrightarrow> adminPhoneGio (handleToggleActive acc' target (onSnapshot (handleToggleActive acc target w)))
         = adminPhoneGio (handleToggleActive acc target w)
       \<and> adminPhoneGio (handleToggleActive acc' target (handleToggleActive acc target w))
         = adminPhoneGio (handleToggleActive acc target w)
       \<and> (\<forall>(i, b) \<in> set (batchUpdates
                            (phoneNumbers (onSnapshot (handleToggleActive acc target w))) target).
            i = target \<and> b)"
proof (intro impI conjI)
  assume a: "phoneNumbers w = adminPhoneGio w \<and> target \<in> id' ` set (adminPhoneGio w)
   \<and> console (handleToggleActive acc target w) = console w"
  then have docs: "adminPhoneGio (handleToggleActive acc target w) =
      map (\<lambda>d. d\<lparr>isActive := (id' d = target)\<rparr>) (adminPhoneGio w)"
    by (simp add: toggle_succeeded_docs)
  have fp: "toggled acc' view target (d\<lparr>isActive := (id' d = target)\<rparr>)
      = d\<lparr>isActive := (id' d = target)\<rparr>" for view d
    by (rule toggled_fixpoint) simp
  show "adminPhoneGio (handleToggleActive acc' target (onSnapshot (handleToggleActive acc target w)))
         = adminPhoneGio (handleToggleActive acc target w)"
    by (simp add: toggle_docs [of acc' target] onSnapshot_def docs fp)
  show "adminPhoneGio (handleToggleActive acc' target (handleToggleActive acc target w))
         = adminPhoneGio (handleToggleActive acc target w)"
    by (simp add: toggle_docs [of acc' target] docs fp)
  have "(i, b) \<in> set (batchUpdates (map (\<lambda>d. d\<lparr>isActive := (id' d = target)\<rparr>) docs) target)
      \<Longrightarrow> i = target \<and> b" for i b docs
    by (auto simp add: batchUpdates_filter)
  then show "\<forall>(i, b) \<in> set (batchUpdates
                            (phoneNumbers (onSnapshot (handleToggleActive acc target w))) target).
            i = target \<and> b"
    by (auto simp add: onSnapshot_def docs)
qed

theorem activate_idempotent_witness:
  "phoneNumbers twoPhones = adminPhoneGio twoPhones
   \<and> js ''2'' \<in> id' ` set (adminPhoneGio twoPhones)
   \<and> console (handleToggleActive acceptAll (js ''2'') twoPhones) = console twoPhones
   \<and> adminPhoneGio
        (handleToggleActive acceptAll (js ''2'')
          (onSnapshot (handleToggleActive acceptAll (js ''2'') twoPhones)))
       = adminPhoneGio (handleToggleActive acceptAll (js ''2'') twoPhones)"
proof -
  have h: "phoneNumbers twoPhones = adminPhoneGio twoPhones"
    "js ''2'' \<in> id' ` set (adminPhoneGio twoPhones)"
    "console (handleToggleActive acceptAll (js ''2'') twoPhones) = console twoPhones"
    by (simp_all add: example_defs)
  from activate_idempotent
    [where w = twoPhones and acc = acceptAll and acc' = acceptAll and target = "js ''2''"] h
  have "adminPhoneGio
        (handleToggleActive acceptAll (js ''2'')
          (onSnapshot (handleToggleActive acceptAll (js ''2'') twoPhones)))
       = adminPhoneGio (handleToggleActive acceptAll (js ''2'') twoPhones)"
    by blast
  with h show ?thesis by blast
qed

section \<open>Adding a phone number\<close>

text \<open>
  Claim C3, as amended. When the typed value is not empty after trimming and the store
  accepts the write, \<open>handleAddPhoneNumber\<close> appends exactly one document to the
  collection: its number is the trimmed value and its flag is false, and the next
  snapshot shows it so. Nothing is asked about the numbers already stored, so a number
  that is present is stored again.
\<close>

theorem add_creates_inactive:
  "trim (newPhoneNumber w) \<noteq> [] \<and> acc (Create (trim (newPhoneNumber w)) False) \<longrightarrow>
     adminPhoneGio (handleAddPhoneNumber acc newId w) =
       adminPhoneGio w @ [\<lparr>id' = newId, number = trim (newPhoneNumber w), isActive = False\<rparr>]
     \<and> phoneNumbers (onSnapshot (handleAddPhoneNumber acc newId w)) =
       adminPhoneGio w @ [\<lparr>id' = newId, number = trim (newPhoneNumber w), isActive = False\<rparr>]
     \<and> length (adminPhoneGio (handleAddPhoneNumber acc newId w)) = Suc (length (adminPhoneGio w))"
  by (simp add: add_docs onSnapshot_def)

text \<open>
  Claim C3 as stated, for every input value, fails: for the empty value the handler
  returns before any write, and the collection stays empty.
\<close>

theorem add_creates_inactive_counterexample:
  "adminPhoneGio (handleAddPhoneNumber acceptAll (js ''3'') ((initial [])\<lparr>newPhoneNumber := []\<rparr>)) = []"
  by (simp add: handleAddPhoneNumber_def initial_def trim_def)

theorem add_creates_inactive_witness:
  "trim (newPhoneNumber typedPhones) \<noteq> []
   \<and> acceptAll (Create (trim (newPhoneNumber typedPhones)) False)
   \<and> adminPhoneGio (handleAddPhoneNumber acceptAll (js ''3'') typedPhones) =
       [phoneA, phoneB, \<lparr>id' = js ''3'', number = number phoneA, isActive = False\<rparr>]"
proof -
  have h: "trim (newPhoneNumber typedPhones) \<noteq> []
      \<and> acceptAll (Create (trim (newPhoneNumber typedPhones)) False)"
    by (simp add: add_defs)
  with add_creates_inactive [where w = typedPhones and acc = acceptAll and newId = "js ''3''"]
  have "adminPhoneGio (handleAddPhoneNumber acceptAll (js ''3'') typedPhones) =
       adminPhoneGio typedPhones
       @ [\<lparr>id' = js ''3'', number = trim (newPhoneNumber typedPhones), isActive = False\<rparr>]"
    by blast
  then have "adminPhoneGio (handleAddPhoneNumber acceptAll (js ''3'') typedPhones) =
       [phoneA, phoneB, \<lparr>id' = js ''3'', number = number phoneA, isActive = False\<rparr>]"
    by (simp add: add_defs)
  with h show ?thesis by simp
qed

text \<open>
  Claim C9. If every code unit of the typed value is white space (in particular if the
  value is empty), \<open>handleAddPhoneNumber\<close> changes nothing: no request is issued.
  Otherwise it issues one request, for the trimmed value with the flag false; if the store
  accepts it, the new document holds the trimmed value, the input field becomes the empty
  string, and nothing is logged. The trimmed value is the typed value without a prefix and
  a suffix of white space, and it neither starts nor ends with white space.
\<close>

theorem add_trims_input:
  "(list_all isWhiteSpace (newPhoneNumber w) \<longrightarrow> handleAddPhoneNumber acc newId w = w)
   \<and> (\<not> list_all isWhiteSpace (newPhoneNumber w) \<longrightarrow>
        issued (handleAddPhoneNumber acc newId w) =
          issued w @ [Create (trim (newPhoneNumber w)) False]
        \<and> (acc (Create (trim (newPhoneNumber w)) False) \<longrightarrow>
             adminPhoneGio (handleAddPhoneNumber acc newId w) =
               adminPhoneGio w
               @ [\<lparr>id' = newId, number = trim (newPhoneNumber w), isActive = False\<rparr>]
             \<and> newPhoneNumber (handleAddPhoneNumber acc newId w) = []
             \<and> console (handleAddPhoneNumber acc newId w) = console w))
   \<and> (\<exists>pre suf. newPhoneNumber w = pre @ trim (newPhoneNumber w) @ suf
         \<and> list_all isWhiteSpace pre \<and> list_all isWhiteSpace suf)
   \<and> (trim (newPhoneNumber w) \<noteq> [] \<longrightarrow>
        \<not> isWhiteSpace (hd (trim (newPhoneNumber w)))
        \<and> \<not> isWhiteSpace (last (trim (newPhoneNumber w))))"
proof (intro conjI impI)
  assume "list_all isWhiteSpace (newPhoneNumber w)"
  then have "trim (newPhoneNumber w) = []" by (simp add: trim_empty_iff list_all_iff)
  then show "handleAddPhoneNumber acc newId w = w" by (simp add: handleAddPhoneNumber_def)
next
  assume "\<not> list_all isWhiteSpace (newPhoneNumber w)"
  then have ne: "trim (newPhoneNumber w) \<noteq> []" by (simp add: trim_empty_iff list_all_iff)
  then show "issued (handleAddPhoneNumber acc newId w) =
          issued w @ [Create (trim (newPhoneNumber w)) False]"
    by (simp add: handleAddPhoneNumber_def addDoc_def)
  assume ok: "acc (Create (trim (newPhoneNumber w)) False)"
  with ne show "adminPhoneGio (handleAddPhoneNumber acc newId w) =
               adminPhoneGio w
               @ [\<lparr>id' = newId, number = trim (newPhoneNumber w), isActive = False\<rparr>]"
    by (simp add: add_docs)
  from ne ok show "newPhoneNumber (handleAddPhoneNumber acc newId w) = []"
    by (simp add: handleAddPhoneNumber_def addDoc_def)
  from ne ok show "console (handleAddPhoneNumber acc newId w) = console w"
    by (simp add: handleAddPhoneNumber_def addDoc_def)
next
  show "\<exists>pre suf. newPhoneNumber w = pre @ trim (newPhoneNumber w) @ suf
         \<and> list_all isWhiteSpace pre \<and> list_all isWhiteSpace suf"
    by (rule trim_surrounded)
next
  assume "trim (newPhoneNumber w) \<noteq> []"
  then show "\<not> isWhiteSpace (hd (trim (newPhoneNumber w)))"
    and "\<not> isWhiteSpace (last (trim (newPhoneNumber w)))"
    by (rule trim_ends)+
qed

theorem add_trims_input_witness:
  "list_all isWhiteSpace (newPhoneNumber blankPhones)
   \<and> handleAddPhoneNumber acceptAll (js ''3'') blankPhones = blankPhones
   \<and> \<not> list_all isWhiteSpace (newPhoneNumber typedPhones)
   \<and> acceptAll (Create (trim (newPhoneNumber typedPhones)) False)
   \<and> trim (newPhoneNumber typedPhones) = js ''0788000001''
   \<and> issued (handleAddPhoneNumber acceptAll (js ''3'') typedPhones) =
       [Create (js ''0788000001'') False]
   \<and> newPhoneNumber (handleAddPhoneNumber acceptAll (js ''3'') typedPhones) = []"
proof -
  have h: "list_all isWhiteSpace (newPhoneNumber blankPhones)"
    "\<not> list_all isWhiteSpace (newPhoneNumber typedPhones)"
    "acceptAll (Create (trim (newPhoneNumber typedPhones)) False)"
    "trim (newPhoneNumber typedPhones) = js ''0788000001''"
    "issued typedPhones = []"
    by (simp_all add: add_defs)
  from add_trims_input [where w = blankPhones and acc = acceptAll and newId = "js ''3''"] h(1)
  have b: "handleAddPhoneNumber acceptAll (js ''3'') blankPhones = blankPhones"
    by blast
  from add_trims_input [where w = typedPhones and acc = acceptAll and newId = "js ''3''"] h(2,3)
  have "issued (handleAddPhoneNumber acceptAll (js ''3'') typedPhones) =
          issued typedPhones @ [Create (trim (newPhoneNumber typedPhones)) False]
        \<and> newPhoneNumber (handleAddPhoneNumber acceptAll (js ''3'') typedPhones) = []"
    by blast
  with h b show ?thesis by simp
qed

section \<open>Creating a catalog entry\<close>

text \<open>
  Claim C6. If nobody is signed in, or the audio file, the title, the genre or the
  producer name is missing (absent or the empty string), \<open>handleAddBeat\<close> only adds one
  alert: no request goes to storage or to the store, no file and no document is created,
  nothing is logged, and the rest of the state is as before.
\<close>

theorem beat_preconditions:
  "currentUser sv = None \<or> audioFile w = None \<or> \<not> truthy (title (newBeat w))
     \<or> \<not> truthy (genre (newBeat w)) \<or> \<not> truthy (producerName (newBeat w))
   \<longrightarrow> (\<exists>msg. handleAddBeat lower sv w = w\<lparr>alerts := alerts w @ [msg]\<rparr>)
       \<and> calls (handleAddBeat lower sv w) = calls w
       \<and> files (handleAddBeat lower sv w) = files w
       \<and> beatsDocs (handleAddBeat lower sv w) = beatsDocs w
       \<and> logged (handleAddBeat lower sv w) = logged w
       \<and> loading (handleAddBeat lower sv w) = loading w"
  by (auto simp add: handleAddBeat_def split: option.splits)

theorem beat_preconditions_witness:
  "currentUser signedOut = None
   \<and> handleAddBeat asciiLower signedOut filledForm =
       filledForm\<lparr>alerts := [js ''Please sign in to upload beats'']\<rparr>
   \<and> \<not> truthy (title (newBeat untitledForm))
   \<and> calls (handleAddBeat asciiLower signedIn untitledForm) = calls untitledForm
   \<and> alerts (handleAddBeat asciiLower signedIn untitledForm) =
       [js ''Please fill in all required fields and upload an audio file'']"
proof -
  have h: "currentUser signedOut = None" "\<not> truthy (title (newBeat untitledForm))"
    by (simp_all add: signedOut_def signedIn_def untitledForm_def filledForm_def truthy_def)
  from beat_preconditions [where sv = signedIn and w = untitledForm and lower = asciiLower] h(2)
  have c: "calls (handleAddBeat asciiLower signedIn untitledForm) = calls untitledForm"
    by blast
  have a: "handleAddBeat asciiLower signedOut filledForm =
       filledForm\<lparr>alerts := [js ''Please sign in to upload beats'']\<rparr>"
    "alerts (handleAddBeat asciiLower signedIn untitledForm) =
       [js ''Please fill in all required fields and upload an audio file'']"
    by (simp_all add: handleAddBeat_def signedOut_def signedIn_def untitledForm_def
        filledForm_def truthy_def emptyBeat_def)
  from h c a show ?thesis by simp
qed

lemma uploadFile_beatsDocs:
  "uploadFile sv file path w = (r, w') \<Longrightarrow> beatsDocs w' = beatsDocs w"
  by (auto simp add: uploadFile_def Let_def split: if_splits option.splits)

lemma storeBeat_beatsDocs:
  "storeBeat sv doc w = (r, w') \<Longrightarrow>
   beatsDocs w' = beatsDocs w \<or> map docData (beatsDocs w') = map docData (beatsDocs w) @ [doc]"
  by (auto simp add: storeBeat_def Let_def comp_def split: if_splits)

lemma addBeat_beatsDocs:
  assumes "addBeat lower sv uid audio w = (r, w')"
  shows "beatsDocs w' = beatsDocs w
     \<or> (\<exists>a p i. map docData (beatsDocs w') =
           map docData (beatsDocs w) @ [makeBeat lower uid a p i (newBeat w)])"
proof -
  obtain r1 w1 where u1:
    "uploadFile sv audio (beatPath uid (dateNow sv 0) ''-full.mp3'') w = (r1, w1)"
    by (cases "uploadFile sv audio (beatPath uid (dateNow sv 0) ''-full.mp3'') w")
  then have d1: "beatsDocs w1 = beatsDocs w" by (rule uploadFile_beatsDocs)
  show ?thesis
  proof (cases r1)
    case (Inl e)
    with assms u1 d1 show ?thesis by (simp add: addBeat_def)
  next
    case (Inr a)
    obtain r2 w2 where u2:
      "(case previewFile w of
          Some f \<Rightarrow> uploadFile sv f (beatPath uid (dateNow sv 1) ''-preview.mp3'') w1
        | None \<Rightarrow> (Inr a, w1)) = (r2, w2)"
      by (cases "(case previewFile w of
          Some f \<Rightarrow> uploadFile sv f (beatPath uid (dateNow sv 1) ''-preview.mp3'') w1
        | None \<Rightarrow> (Inr a, w1))")
    then have d2: "beatsDocs w2 = beatsDocs w"
      using d1 by (auto split: option.splits dest: uploadFile_beatsDocs)
    show ?thesis
    proof (cases r2)
      case (Inl e)
      with assms u1 u2 d2 \<open>r1 = Inr a\<close> show ?thesis by (simp add: addBeat_def)
    next
      case (Inr p)
      obtain r3 w3 where u3:
        "(case imageFile w of
            Some f \<Rightarrow>
              uploadFile sv f
                (beatPath uid (dateNow sv (if previewFile w = None then 1 else 2)) ''-cover.jpg'')
                w2
          | None \<Rightarrow> (Inr [], w2)) = (r3, w3)"
        by (cases "(case imageFile w of
            Some f \<Rightarrow>
              uploadFile sv f
                (beatPath uid (dateNow sv (if previewFile w = None then 1 else 2)) ''-cover.jpg'')
                w2
          | None \<Rightarrow> (Inr [], w2))")
      then have d3: "beatsDocs w3 = beatsDocs w"
        using d2 by (auto split: option.splits dest: uploadFile_beatsDocs)
      show ?thesis
      proof (cases r3)
        case (Inl e)
        with assms u1 u2 u3 d3 \<open>r1 = Inr a\<close> \<open>r2 = Inr p\<close> show ?thesis
          by (simp add: addBeat_def)
      next
        case (Inr i)
        with assms u1 u2 u3 \<open>r1 = Inr a\<close> \<open>r2 = Inr p\<close>
        have "storeBeat sv (makeBeat lower uid a p i (newBeat w)) w3 = (r, w')"
          by (simp add: addBeat_def)
        from storeBeat_beatsDocs [OF this] d3 show ?thesis by auto
      qed
    qed
  qed
qed

lemma filterBoolean_Some: "filterBoolean (map Some xs) = filter (\<lambda>s. s \<noteq> []) xs"
  by (induction xs) simp_all

lemma makeSearchKeywords_eq:
  "title nb = Some t \<Longrightarrow> genre nb = Some g \<Longrightarrow> producerName nb = Some p \<Longrightarrow>
   makeSearchKeywords lower nb =
     filter (\<lambda>s. s \<noteq> [])
       (map lower (t # g # p # (case tags nb of None \<Rightarrow> [] | Some ts \<Rightarrow> ts)))"
proof -
  assume a: "title nb = Some t" "genre nb = Some g" "producerName nb = Some p"
  have "[map_option lower (title nb), map_option lower (genre nb),
         map_option lower (producerName nb)]
        @ (case tags nb of None \<Rightarrow> [] | Some ts \<Rightarrow> map (\<lambda>tag. Some (lower tag)) ts)
      = map Some (map lower (t # g # p # (case tags nb of None \<Rightarrow> [] | Some ts \<Rightarrow> ts)))"
    using a by (simp split: option.splits)
  then show ?thesis
    unfolding makeSearchKeywords_def by (simp only: filterBoolean_Some)
qed

lemma handleAddBeat_beatsDocs:
  "beatsDocs (handleAddBeat lower sv w) = beatsDocs w
   \<or> (\<exists>uid a p i. currentUser sv = Some uid \<and> truthy (title (newBeat w))
         \<and> truthy (genre (newBeat w)) \<and> truthy (producerName (newBeat w))
         \<and> map docData (beatsDocs (handleAddBeat lower sv w)) =
             map docData (beatsDocs w) @ [makeBeat lower uid a p i (newBeat w)])"
proof (cases "currentUser sv")
  case None
  then show ?thesis by (simp add: handleAddBeat_def)
next
  case (Some uid)
  show ?thesis
  proof (cases "audioFile w")
    case None
    with Some show ?thesis by (simp add: handleAddBeat_def)
  next
    case (Some audio)
    show ?thesis
    proof (cases "truthy (title (newBeat w)) \<and> truthy (genre (newBeat w))
        \<and> truthy (producerName (newBeat w))")
      case False
      with Some \<open>currentUser sv = Some uid\<close> show ?thesis
        by (auto simp add: handleAddBeat_def)
    next
      case True
      obtain r w' where run: "addBeat lower sv uid audio (w\<lparr>loading := True\<rparr>) = (r, w')"
        by (cases "addBeat lower sv uid audio (w\<lparr>loading := True\<rparr>)")
      from addBeat_beatsDocs [OF run]
      have "beatsDocs w' = beatsDocs w
        \<or> (\<exists>a p i. map docData (beatsDocs w') =
              map docData (beatsDocs w) @ [makeBeat lower uid a p i (newBeat w)])"
        by simp
      moreover have "beatsDocs (handleAddBeat lower sv w) = beatsDocs w'"
        using True Some \<open>currentUser sv = Some uid\<close> run
        by (cases r) (simp_all add: handleAddBeat_def)
      ultimately show ?thesis
        using True \<open>currentUser sv = Some uid\<close> by auto
    qed
  qed
qed


lemma makeBeat_fields:
  "plays (makeBeat lower uid a p i nb) = Some 0"
  "purchases (makeBeat lower uid a p i nb) = Some 0"
  "likes (makeBeat lower uid a p i nb) = Some 0"
  "duration (makeBeat lower uid a p i nb) = Some 0"
  "searchKeywords (makeBeat lower uid a p i nb) = Some (makeSearchKeywords lower nb)"
  by (simp_all add: makeBeat_def)

lemma truthy_Some: "truthy x \<Longrightarrow> \<exists>s. x = Some s"
  by (cases x) (simp_all add: truthy_def)

lemma uploadFile_succeeds:
  assumes "\<forall>path. uploadBytes sv path" and "\<forall>path. getDownloadURL sv path \<noteq> None"
  shows "\<exists>u w'. uploadFile sv f path w = (Inr u, w') \<and> beatsDocs w' = beatsDocs w"
proof -
  from assms(2) obtain u where "getDownloadURL sv path = Some u" by blast
  with assms(1) show ?thesis by (simp add: uploadFile_def Let_def)
qed

lemma storeBeat_creates:
  "addDocOk sv \<Longrightarrow>
   length (beatsDocs (snd (storeBeat sv doc w))) = Suc (length (beatsDocs w))"
  by (simp add: storeBeat_def Let_def)

lemma addBeat_creates:
  assumes up: "\<forall>path. uploadBytes sv path" and url: "\<forall>path. getDownloadURL sv path \<noteq> None"
    and ok: "addDocOk sv"
  shows "length (beatsDocs (snd (addBeat lower sv uid audio w))) = Suc (length (beatsDocs w))"
proof -
  from uploadFile_succeeds [OF up url, of audio "beatPath uid (dateNow sv 0) ''-full.mp3''" w]
  obtain a w1 where u1:
    "uploadFile sv audio (beatPath uid (dateNow sv 0) ''-full.mp3'') w = (Inr a, w1)"
    and d1: "beatsDocs w1 = beatsDocs w"
    by blast
  have "\<exists>p w2. (case previewFile w of
          Some f \<Rightarrow> uploadFile sv f (beatPath uid (dateNow sv 1) ''-preview.mp3'') w1
        | None \<Rightarrow> (Inr a, w1)) = (Inr p, w2) \<and> beatsDocs w2 = beatsDocs w"
  proof (cases "previewFile w")
    case None
    with d1 show ?thesis by simp
  next
    case (Some f)
    with uploadFile_succeeds [OF up url, of f "beatPath uid (dateNow sv 1) ''-preview.mp3''" w1] d1
    show ?thesis by simp
  qed
  then obtain p w2 where u2: "(case previewFile w of
          Some f \<Rightarrow> uploadFile sv f (beatPath uid (dateNow sv 1) ''-preview.mp3'') w1
        | None \<Rightarrow> (Inr a, w1)) = (Inr p, w2)"
    and d2: "beatsDocs w2 = beatsDocs w"
    by blast
  have "\<exists>i w3. (case imageFile w of
            Some f \<Rightarrow>
              uploadFile sv f
                (beatPath uid (dateNow sv (if previewFile w = None then 1 else 2)) ''-cover.jpg'')
                w2
          | None \<Rightarrow> (Inr [], w2)) = (Inr i, w3) \<and> beatsDocs w3 = beatsDocs w"
  proof (cases "imageFile w")
    case None
    with d2 show ?thesis by simp
  next
    case (Some f)
    with uploadFile_succeeds
      [OF up url, of f
        "beatPath uid (dateNow sv (if previewFile w = None then 1 else 2)) ''-cover.jpg''" w2] d2
    show ?thesis by simp
  qed
  then obtain i w3 where u3: "(case imageFile w of
            Some f \<Rightarrow>
              uploadFile sv f
                (beatPath uid (dateNow sv (if previewFile w = None then 1 else 2)) ''-cover.jpg'')
                w2
          | None \<Rightarrow> (Inr [], w2)) = (Inr i, w3)"
    and d3: "beatsDocs w3 = beatsDocs w"
    by blast
  from u1 u2 u3 have "addBeat lower sv uid audio w =
      storeBeat sv (makeBeat lower uid a p i (newBeat w)) w3"
    by (simp add: addBeat_def)
  with storeBeat_creates [OF ok, of "makeBeat lower uid a p i (newBeat w)" w3] d3
  show ?thesis by simp
qed

lemma handleAddBeat_creates:
  assumes "currentUser sv \<noteq> None" and "audioFile w \<noteq> None" and "truthy (title (newBeat w))"
    and "truthy (genre (newBeat w))" and "truthy (producerName (newBeat w))"
    and up: "\<forall>path. uploadBytes sv path" and url: "\<forall>path. getDownloadURL sv path \<noteq> None"
    and ok: "addDocOk sv"
  shows "length (beatsDocs (handleAddBeat lower sv w)) = Suc (length (beatsDocs w))"
proof -
  from assms(1,2) obtain uid audio where s: "currentUser sv = Some uid" "audioFile w = Some audio"
    by blast
  obtain r w' where run: "addBeat lower sv uid audio (w\<lparr>loading := True\<rparr>) = (r, w')"
    by (cases "addBeat lower sv uid audio (w\<lparr>loading := True\<rparr>)")
  with addBeat_creates [OF up url ok, of lower uid audio "w\<lparr>loading := True\<rparr>"]
  have "length (beatsDocs w') = Suc (length (beatsDocs w))" by simp
  moreover have "beatsDocs (handleAddBeat lower sv w) = beatsDocs w'"
    using assms(3-5) s run by (cases r) (simp_all add: handleAddBeat_def)
  ultimately show ?thesis by simp
qed

lemma filledForm_run:
  "beatsDocs (handleAddBeat asciiLower signedIn filledForm) =
     [\<lparr>docId = js ''b1'',
       docData = makeBeat asciiLower (js ''u1'') (js ''https://cdn/beats/u1/1700-full.mp3'')
                   (js ''https://cdn/beats/u1/1700-full.mp3'') [] (newBeat filledForm),
       docIdField = Some (js ''b1'')\<rparr>]"
  "calls (handleAddBeat asciiLower signedIn filledForm) =
     [UploadBytes (js ''beats/u1/1700-full.mp3''), GetDownloadURL (js ''beats/u1/1700-full.mp3''),
      AddBeat (makeBeat asciiLower (js ''u1'') (js ''https://cdn/beats/u1/1700-full.mp3'')
                 (js ''https://cdn/beats/u1/1700-full.mp3'') [] (newBeat filledForm)),
      SetId (js ''b1'')]"
  "newBeat (handleAddBeat asciiLower signedIn filledForm) = emptyBeat"
  "alerts (handleAddBeat asciiLower signedIn filledForm) = []"
  by (simp_all add: signedIn_def filledForm_def handleAddBeat_def addBeat_def uploadFile_def
      storeBeat_def beatPath_def truthy_def js_def Let_def emptyBeat_def)

text \<open>
  Claim C10. Whenever \<open>handleAddBeat\<close> changes the collection, it has appended one entry;
  title, genre and producer name of the form are present, and the entry has plays,
  purchases, likes and duration 0, and as search keywords the lowercased title, genre,
  producer name and tags, in this order, without the empty strings. An entry is created
  whenever a user is signed in, the required fields are present and storage and store
  accept the requests.
\<close>

theorem created_beat_fields:
  "(beatsDocs (handleAddBeat lower sv w) \<noteq> beatsDocs w \<longrightarrow>
      (\<exists>d t g p.
         map docData (beatsDocs (handleAddBeat lower sv w)) = map docData (beatsDocs w) @ [d]
         \<and> title (newBeat w) = Some t \<and> genre (newBeat w) = Some g
         \<and> producerName (newBeat w) = Some p
         \<and> plays d = Some 0 \<and> purchases d = Some 0 \<and> likes d = Some 0 \<and> duration d = Some 0
         \<and> searchKeywords d =
             Some (filter (\<lambda>s. s \<noteq> [])
                     (map lower
                        (t # g # p # (case tags (newBeat w) of None \<Rightarrow> [] | Some ts \<Rightarrow> ts))))))
   \<and> (currentUser sv \<noteq> None \<and> audioFile w \<noteq> None \<and> truthy (title (newBeat w))
        \<and> truthy (genre (newBeat w)) \<and> truthy (producerName (newBeat w))
        \<and> (\<forall>path. uploadBytes sv path) \<and> (\<forall>path. getDownloadURL sv path \<noteq> None)
        \<and> addDocOk sv
      \<longrightarrow> length (beatsDocs (handleAddBeat lower sv w)) = Suc (length (beatsDocs w)))"
proof (intro conjI impI)
  assume "beatsDocs (handleAddBeat lower sv w) \<noteq> beatsDocs w"
  with handleAddBeat_beatsDocs [of lower sv w]
  obtain uid a p i where c: "truthy (title (newBeat w))" "truthy (genre (newBeat w))"
      "truthy (producerName (newBeat w))"
      "map docData (beatsDocs (handleAddBeat lower sv w)) =
         map docData (beatsDocs w) @ [makeBeat lower uid a p i (newBeat w)]"
    by blast
  from c(1-3) obtain t g pn where f: "title (newBeat w) = Some t" "genre (newBeat w) = Some g"
      "producerName (newBeat w) = Some pn"
    by (blast dest: truthy_Some)
  from f have "searchKeywords (makeBeat lower uid a p i (newBeat w)) =
      Some (filter (\<lambda>s. s \<noteq> [])
              (map lower (t # g # pn # (case tags (newBeat w) of None \<Rightarrow> [] | Some ts \<Rightarrow> ts))))"
    by (simp only: makeBeat_fields makeSearchKeywords_eq)
  with c(4) f makeBeat_fields(1-4) [of lower uid a p i "newBeat w"]
  show "\<exists>d t g p.
         map docData (beatsDocs (handleAddBeat lower sv w)) = map docData (beatsDocs w) @ [d]
         \<and> title (newBeat w) = Some t \<and> genre (newBeat w) = Some g
         \<and> producerName (newBeat w) = Some p
         \<and> plays d = Some 0 \<and> purchases d = Some 0 \<and> likes d = Some 0 \<and> duration d = Some 0
         \<and> searchKeywords d =
             Some (filter (\<lambda>s. s \<noteq> [])
                     (map lower
                        (t # g # p # (case tags (newBeat w) of None \<Rightarrow> [] | Some ts \<Rightarrow> ts))))"
    by blast
next
  assume "currentUser sv \<noteq> None \<and> audioFile w \<noteq> None \<and> truthy (title (newBeat w))
        \<and> truthy (genre (newBeat w)) \<and> truthy (producerName (newBeat w))
        \<and> (\<forall>path. uploadBytes sv path) \<and> (\<forall>path. getDownloadURL sv path \<noteq> None)
        \<and> addDocOk sv"
  then show "length (beatsDocs (handleAddBeat lower sv w)) = Suc (length (beatsDocs w))"
    by (simp add: handleAddBeat_creates)
qed

theorem created_beat_fields_witness:
  "beatsDocs (handleAddBeat asciiLower signedIn filledForm) \<noteq> beatsDocs filledForm
   \<and> plays (docData (last (beatsDocs (handleAddBeat asciiLower signedIn filledForm)))) = Some 0
   \<and> searchKeywords (docData (last (beatsDocs (handleAddBeat asciiLower signedIn filledForm))))
       = Some [js ''night drive'', js ''afro'', js ''dj gio'', js ''chill'', js ''night'']
   \<and> length (calls (handleAddBeat asciiLower signedIn filledForm)) = 4"
proof -
  have h: "beatsDocs (handleAddBeat asciiLower signedIn filledForm) \<noteq> beatsDocs filledForm"
    by (simp add: filledForm_run) (simp add: filledForm_def)
  with created_beat_fields [where lower = asciiLower and sv = signedIn and w = filledForm]
  obtain d where d: "map docData (beatsDocs (handleAddBeat asciiLower signedIn filledForm)) =
      map docData (beatsDocs filledForm) @ [d]" "plays d = Some 0"
    by blast
  from d(1) have "docData (last (beatsDocs (handleAddBeat asciiLower signedIn filledForm))) = d"
    by (simp add: filledForm_run)
  with d(2) have p: "plays (docData (last (beatsDocs (handleAddBeat asciiLower signedIn filledForm)))) = Some 0"
    by simp
  have k: "searchKeywords (docData (last (beatsDocs (handleAddBeat asciiLower signedIn filledForm))))
       = Some [js ''night drive'', js ''afro'', js ''dj gio'', js ''chill'', js ''night'']"
    by (simp add: filledForm_run makeBeat_fields)
       (simp add: makeSearchKeywords_def filledForm_def emptyBeat_def asciiLower_def js_def)
  have c: "length (calls (handleAddBeat asciiLower signedIn filledForm)) = 4"
    by (simp add: filledForm_run)
  from h p k c show ?thesis by simp
qed

end
